theory Spec2Isabelle
  imports Main "HOL-Library.AList"
begin

section \<open>Values of the runtime\<close>

text \<open>
  The managers of \<^verbatim>\<open>adapters/realtime\<close> (\<^verbatim>\<open>WebSocketManager\<close>, \<^verbatim>\<open>SSEManager\<close>) exchange
  JSON values with their callers. A JSON value is a tree; object members keep their order,
  as \<^verbatim>\<open>JSON.stringify\<close> prints them in insertion order. Numbers are modelled as integers
  (timestamps, retry delays, close codes): the rounding of IEEE doubles is not modelled.
\<close>

datatype json =
    JNull
  | JBool bool
  | JNum int
  | JStr string
  | JArr "json list"
  | JObj "(string \<times> json) list"

text \<open>
  What a \<^verbatim>\<open>throw\<close> (or a rejected promise) carries. The code reads only the \<^verbatim>\<open>message\<close>
  property of a caught value: an \<^verbatim>\<open>Error\<close> has one, \<^verbatim>\<open>null\<close> and \<^verbatim>\<open>undefined\<close> raise a
  \<^verbatim>\<open>TypeError\<close> when it is read, any other value yields \<^verbatim>\<open>undefined\<close>.
\<close>

datatype thrown =
    ThrowError string
  | ThrowOther
  | ThrowNullish

text \<open>
  The transports are the caller's closures \<^verbatim>\<open>sendFn\<close> and \<^verbatim>\<open>closeFn\<close>. Their calls are
  recorded in a trace, each event naming the connection id the closure was registered
  under. A closure either returns (\<open>None\<close>) or throws (\<open>Some t\<close>); what it does may depend on
  the calls made so far, so that a transport can fail on its first write only. The closures
  modelled are those that do not call back into the manager: a \<^verbatim>\<open>sendFn\<close> that calls
  \<^verbatim>\<open>removeConnection\<close> or \<^verbatim>\<open>close\<close> from inside a write is outside the model.

  A string is the list of its units, as \<^verbatim>\<open>String.prototype.length\<close> counts them; a unit is a
  character of the range U+0000 to U+00FF.
\<close>

datatype event =
    SendRaw string string
  | CloseRaw string "int option" "string option"

section \<open>Data model\<close>

text \<open>
  \<^verbatim>\<open>interface WebSocketConnection\<close> / \<^verbatim>\<open>interface SSEConnection\<close>. The fields \<^verbatim>\<open>send\<close> and \<^verbatim>\<open>close\<close>
  of the source are closures over \<^verbatim>\<open>sendFn\<close>, \<^verbatim>\<open>closeFn\<close>, \<^verbatim>\<open>connectionId\<close> and the manager;
  the record keeps the captured closures, and \<open>sendMessage\<close>, \<open>sendEvent\<close> and \<open>conn_close\<close> below are the
  bodies. For \<^verbatim>\<open>SSEManager\<close> the close closure takes no arguments (both are \<open>None\<close>).
\<close>

record conn =
  conn_id :: string
  userId :: "string option"
  channel :: "string option"
  connectedAt :: nat
  sendFn :: "event list \<Rightarrow> string \<Rightarrow> thrown option"
  closeFn :: "event list \<Rightarrow> int option \<Rightarrow> string option \<Rightarrow> thrown option"

text \<open>\<^verbatim>\<open>interface WebSocketManagerOptions\<close>: every field optional.\<close>

record manager_options =
  heartbeatInterval :: "int option"
  connectionTimeout :: "int option"
  maxConnectionsPerUser :: "int option"
  maxMessageSize :: "int option"

text \<open>
  The private fields of the class. A JavaScript \<^verbatim>\<open>Map\<close> and \<^verbatim>\<open>Set\<close> iterate in insertion
  order, so a \<^verbatim>\<open>Map\<close> is an association list (\<open>AList.update\<close> overwrites in place or
  appends, as \<^verbatim>\<open>Map.set\<close> does) and a \<^verbatim>\<open>Set\<close> of ids is a list without repetition.
  \<open>clock\<close> is what \<^verbatim>\<open>Date.now()\<close> returns, \<open>trace\<close> the calls made to the transports.
\<close>

record manager =
  connections :: "(string \<times> conn) list"
  userConnections :: "(string \<times> string list) list"
  channelConnections :: "(string \<times> string list) list"
  options :: manager_options
  heartbeatTimer :: bool
  clock :: nat
  trace :: "event list"

text \<open>\<^verbatim>\<open>Set.add\<close> and \<^verbatim>\<open>Set.delete\<close>.\<close>

definition set_add :: "string \<Rightarrow> string list \<Rightarrow> string list" where
  "set_add x xs = (if x \<in> set xs then xs else xs @ [x])"

definition set_delete :: "string \<Rightarrow> string list \<Rightarrow> string list" where
  "set_delete x xs = removeAll x xs"

text \<open>
  Truthiness of an optional string, as in \<^verbatim>\<open>if (userId)\<close>: \<^verbatim>\<open>undefined\<close> and the empty
  string are falsy.
\<close>

fun truthy :: "string option \<Rightarrow> bool" where
  "truthy None = False"
| "truthy (Some s) = (s \<noteq> [])"

text \<open>
  The constructor: defaults filled in with \<^verbatim>\<open>??\<close>, empty maps, heartbeat timer started.
  \<open>now\<close> is the wall clock of the process.
\<close>

definition with_default :: "int \<Rightarrow> int option \<Rightarrow> int option" where
  "with_default d v = (case v of None \<Rightarrow> Some d | Some x \<Rightarrow> Some x)"

definition WebSocketManager :: "manager_options \<Rightarrow> nat \<Rightarrow> manager" where
  "WebSocketManager opts now =
     \<lparr> connections = [], userConnections = [], channelConnections = [],
       options = \<lparr> heartbeatInterval = with_default 30000 (heartbeatInterval opts),
                   connectionTimeout = with_default 300000 (connectionTimeout opts),
                   maxConnectionsPerUser = with_default 10 (maxConnectionsPerUser opts),
                   maxMessageSize = with_default (1024 * 1024) (maxMessageSize opts) \<rparr>,
       heartbeatTimer = True, clock = now, trace = [] \<rparr>"

text \<open>
  \<^verbatim>\<open>this.options.maxConnectionsPerUser!\<close> and \<^verbatim>\<open>this.options.maxMessageSize!\<close>: set by the
  constructor, so the defaults here are never read on a constructed manager.
\<close>

definition max_per_user :: "manager \<Rightarrow> int" where
  "max_per_user m = (case maxConnectionsPerUser (options m) of Some n \<Rightarrow> n | None \<Rightarrow> 10)"

definition max_message_size :: "manager \<Rightarrow> int" where
  "max_message_size m = (case maxMessageSize (options m) of Some n \<Rightarrow> n | None \<Rightarrow> 1024 * 1024)"

section \<open>Registry\<close>

definition getConnection :: "string \<Rightarrow> manager \<Rightarrow> conn option" where
  "getConnection connectionId m = map_of (connections m) connectionId"

definition getConnectionCount :: "manager \<Rightarrow> nat" where
  "getConnectionCount m = length (connections m)"

definition getUserConnectionCount :: "string \<Rightarrow> manager \<Rightarrow> nat" where
  "getUserConnectionCount u m =
     (case map_of (userConnections m) u of None \<Rightarrow> 0 | Some ids \<Rightarrow> length ids)"

definition getChannelConnectionCount :: "string \<Rightarrow> manager \<Rightarrow> nat" where
  "getChannelConnectionCount ch m =
     (case map_of (channelConnections m) ch of None \<Rightarrow> 0 | Some ids \<Rightarrow> length ids)"

text \<open>Decimal rendering of a number inside a template literal.\<close>

fun nat_digits :: "nat \<Rightarrow> string" where
  "nat_digits n =
     (if n < 10 then [''0123456789'' ! n]
      else nat_digits (n div 10) @ [''0123456789'' ! (n mod 10)])"

declare nat_digits.simps [simp del]

definition int_digits :: "int \<Rightarrow> string" where
  "int_digits i = (if i < 0 then CHR ''-'' # nat_digits (nat (- i)) else nat_digits (nat i))"

text \<open>
  The error of the admission check:
  \<^verbatim>\<open>new Error(`Maximum connections (${max}) exceeded for user ${userId}`)\<close>.
\<close>

definition quota_error :: "int \<Rightarrow> string \<Rightarrow> thrown" where
  "quota_error mx u =
     ThrowError (''Maximum connections ('' @ int_digits mx @ '') exceeded for user '' @ u)"

text \<open>
  The tracking step shared by the user and the channel index:
  \<^verbatim>\<open>if (!map.has(k)) map.set(k, new Set()); map.get(k)!.add(id)\<close>.
\<close>

definition track :: "string \<Rightarrow> string \<Rightarrow> (string \<times> string list) list \<Rightarrow> (string \<times> string list) list" where
  "track k connectionId idx =
     (case map_of idx k of
        None \<Rightarrow> AList.update k [connectionId] idx
      | Some ids \<Rightarrow> AList.update k (set_add connectionId ids) idx)"

text \<open>
  The untracking step of \<^verbatim>\<open>removeConnection\<close>:
  \<^verbatim>\<open>const s = map.get(k); if (s) { s.delete(id); if (s.size === 0) map.delete(k) }\<close>.
\<close>

definition untrack :: "string \<Rightarrow> string \<Rightarrow> (string \<times> string list) list \<Rightarrow> (string \<times> string list) list" where
  "untrack k connectionId idx =
     (case map_of idx k of
        None \<Rightarrow> idx
      | Some ids \<Rightarrow>
          (let ids' = set_delete connectionId ids
           in if length ids' = 0 then AList.delete k idx else AList.update k ids' idx))"

text \<open>
  \<^verbatim>\<open>addConnection\<close> (the same text in both managers). The result is the thrown error or the
  new record, together with the manager after the call.
\<close>

definition addConnection ::
  "string \<Rightarrow> (event list \<Rightarrow> string \<Rightarrow> thrown option) \<Rightarrow>
   (event list \<Rightarrow> int option \<Rightarrow> string option \<Rightarrow> thrown option) \<Rightarrow>
   string option \<Rightarrow> string option \<Rightarrow> manager \<Rightarrow> (thrown + conn) \<times> manager" where
  "addConnection connectionId sf cf uid ch m =
     (if truthy uid \<and> int (getUserConnectionCount (the uid) m) \<ge> max_per_user m
      then (Inl (quota_error (max_per_user m) (the uid)), m)
      else
        let connection = \<lparr> conn_id = connectionId, userId = uid, channel = ch,
                            connectedAt = clock m, sendFn = sf, closeFn = cf \<rparr>;
            m1 = m \<lparr> connections := AList.update connectionId connection (connections m) \<rparr>;
            m2 = (if truthy uid
                  then m1 \<lparr> userConnections := track (the uid) connectionId (userConnections m1) \<rparr>
                  else m1);
            m3 = (if truthy ch
                  then m2 \<lparr> channelConnections := track (the ch) connectionId (channelConnections m2) \<rparr>
                  else m2)
        in (Inr connection, m3))"

text \<open>\<^verbatim>\<open>removeConnection\<close> (the same text in both managers).\<close>

definition removeConnection :: "string \<Rightarrow> manager \<Rightarrow> manager" where
  "removeConnection connectionId m =
     (case map_of (connections m) connectionId of
        None \<Rightarrow> m
      | Some connection \<Rightarrow>
          let m1 = (if truthy (userId connection)
                    then m \<lparr> userConnections :=
                                untrack (the (userId connection)) connectionId (userConnections m) \<rparr>
                    else m);
              m2 = (if truthy (channel connection)
                    then m1 \<lparr> channelConnections :=
                                 untrack (the (channel connection)) connectionId (channelConnections m1) \<rparr>
                    else m1)
          in m2 \<lparr> connections := AList.delete connectionId (connections m2) \<rparr>)"

section \<open>Frame encoders\<close>

text \<open>
  \<^verbatim>\<open>JSON.stringify\<close> without indentation: one line, members in order, strings quoted with
  the quotation mark, the backslash and the control characters escaped.
\<close>

definition escape_char :: "char \<Rightarrow> string" where
  "escape_char c =
     (if c = CHR 0x22 then [CHR 0x5C, CHR 0x22]
      else if c = CHR 0x5C then [CHR 0x5C, CHR 0x5C]
      else if c = CHR 0x08 then [CHR 0x5C, CHR ''b'']
      else if c = CHR 0x0C then [CHR 0x5C, CHR ''f'']
      else if c = CHR 0x0A then [CHR 0x5C, CHR ''n'']
      else if c = CHR 0x0D then [CHR 0x5C, CHR ''r'']
      else if c = CHR 0x09 then [CHR 0x5C, CHR ''t'']
      else if (of_char c :: nat) < 32
      then [CHR 0x5C, CHR ''u'', CHR ''0'', CHR ''0'',
            ''0123456789abcdef'' ! ((of_char c :: nat) div 16),
            ''0123456789abcdef'' ! ((of_char c :: nat) mod 16)]
      else [c])"

definition quote :: "string \<Rightarrow> string" where
  "quote s = [CHR 0x22] @ concat (map escape_char s) @ [CHR 0x22]"

fun join_with :: "string \<Rightarrow> string list \<Rightarrow> string" where
  "join_with sep [] = []"
| "join_with sep [x] = x"
| "join_with sep (x # y # ys) = x @ sep @ join_with sep (y # ys)"

fun JSON_stringify :: "json \<Rightarrow> string" where
  "JSON_stringify JNull = ''null''"
| "JSON_stringify (JBool b) = (if b then ''true'' else ''false'')"
| "JSON_stringify (JNum n) = int_digits n"
| "JSON_stringify (JStr s) = quote s"
| "JSON_stringify (JArr xs) = ''['' @ join_with '','' (map JSON_stringify xs) @ '']''"
| "JSON_stringify (JObj kvs) =
     ''{'' @ join_with '','' (map (\<lambda>kv. quote (fst kv) @ '':'' @ JSON_stringify (snd kv)) kvs) @ ''}''"

text \<open>\<^verbatim>\<open>interface WebSocketMessage\<close>.\<close>

record ws_message =
  mtype :: string
  payload :: json
  msg_id :: "string option"
  timestamp :: "int option"

text \<open>
  The object built by \<^verbatim>\<open>sendMessage\<close>: \<^verbatim>\<open>{ ...message, timestamp: message.timestamp ?? Date.now() }\<close>,
  with the members in the order of the interface.
\<close>

definition ws_payload :: "ws_message \<Rightarrow> nat \<Rightarrow> json" where
  "ws_payload message now =
     JObj ([(''type'', JStr (mtype message)), (''payload'', payload message)]
           @ (case msg_id message of None \<Rightarrow> [] | Some i \<Rightarrow> [(''id'', JStr i)])
           @ [(''timestamp'', JNum (case timestamp message of None \<Rightarrow> int now | Some t \<Rightarrow> t))])"

text \<open>\<^verbatim>\<open>interface SSEEvent\<close>; \<^verbatim>\<open>data\<close> is a string or an object.\<close>

datatype sse_data = DataString string | DataObject json

record sse_event =
  ev_id :: "string option"
  ev_event :: "string option"
  ev_data :: sse_data
  ev_retry :: "int option"

text \<open>
  The text accumulated in \<^verbatim>\<open>message\<close> by \<^verbatim>\<open>SSEManager.sendEvent\<close>. \<^verbatim>\<open>if (event.id)\<close>,
  \<^verbatim>\<open>if (event.event)\<close> and \<^verbatim>\<open>if (event.retry)\<close> test truthiness: an empty string and the
  number 0 are skipped like an absent field. \<open>data_text\<close> is the constant \<^verbatim>\<open>data\<close>:
  \<^verbatim>\<open>typeof event.data === 'string' ? event.data : JSON.stringify(event.data)\<close>.
\<close>

definition data_text :: "sse_data \<Rightarrow> string" where
  "data_text d = (case d of DataString s \<Rightarrow> s | DataObject v \<Rightarrow> JSON_stringify v)"

definition sse_message :: "sse_event \<Rightarrow> string" where
  "sse_message event =
     (if truthy (ev_id event) then ''id: '' @ the (ev_id event) @ [CHR 0x0A] else [])
     @ (if truthy (ev_event event) then ''event: '' @ the (ev_event event) @ [CHR 0x0A] else [])
     @ ''data: '' @ data_text (ev_data event) @ [CHR 0x0A]
     @ (case ev_retry event of
          None \<Rightarrow> []
        | Some r \<Rightarrow> if r \<noteq> 0 then ''retry: '' @ int_digits r @ [CHR 0x0A] else [])
     @ [CHR 0x0A]"

section \<open>Connection records: send and close\<close>

text \<open>A call of the captured \<^verbatim>\<open>sendFn\<close>: recorded in the trace, it returns or throws.\<close>

definition call_sendFn :: "conn \<Rightarrow> string \<Rightarrow> manager \<Rightarrow> thrown option \<times> manager" where
  "call_sendFn c data m =
     (sendFn c (trace m) data, m \<lparr> trace := trace m @ [SendRaw (conn_id c) data] \<rparr>)"

text \<open>\<^verbatim>\<open>WebSocketManager.sendMessage\<close>, the body of a WebSocket record's \<^verbatim>\<open>send\<close>.\<close>

definition sendMessage :: "conn \<Rightarrow> ws_message \<Rightarrow> manager \<Rightarrow> thrown option \<times> manager" where
  "sendMessage c message m = call_sendFn c (JSON_stringify (ws_payload message (clock m))) m"

text \<open>\<^verbatim>\<open>SSEManager.sendEvent\<close>, the body of an SSE record's \<^verbatim>\<open>send\<close>.\<close>

definition sendEvent :: "conn \<Rightarrow> sse_event \<Rightarrow> manager \<Rightarrow> thrown option \<times> manager" where
  "sendEvent c event m = call_sendFn c (sse_message event) m"

text \<open>
  The record's \<^verbatim>\<open>close\<close>: \<^verbatim>\<open>closeFn(code, reason); this.removeConnection(connectionId)\<close>.
  When \<^verbatim>\<open>closeFn\<close> throws, the removal is not reached.
\<close>

definition conn_close ::
  "conn \<Rightarrow> int option \<Rightarrow> string option \<Rightarrow> manager \<Rightarrow> thrown option \<times> manager" where
  "conn_close c code reason m =
     (let m1 = m \<lparr> trace := trace m @ [CloseRaw (conn_id c) code reason] \<rparr>
      in case closeFn c (trace m) code reason of
           Some t \<Rightarrow> (Some t, m1)
         | None \<Rightarrow> (None, removeConnection (conn_id c) m1))"

section \<open>Publisher\<close>

text \<open>
  The publishing methods have the same text in both managers; \<open>send\<close> is the record's
  \<^verbatim>\<open>send\<close> closure (\<open>sendMessage\<close> or \<open>sendEvent\<close>). No call of \<^verbatim>\<open>send\<close> is guarded by a
  \<^verbatim>\<open>try\<close>, so an exception of the transport leaves the method (\<open>Inl\<close>).
\<close>

definition sendToConnection ::
  "(conn \<Rightarrow> 'a \<Rightarrow> manager \<Rightarrow> thrown option \<times> manager) \<Rightarrow> string \<Rightarrow> 'a \<Rightarrow> manager
   \<Rightarrow> (thrown + bool) \<times> manager" where
  "sendToConnection send connectionId message m =
     (case map_of (connections m) connectionId of
        None \<Rightarrow> (Inr False, m)
      | Some connection \<Rightarrow>
          (case send connection message m of
             (Some t, m') \<Rightarrow> (Inl t, m')
           | (None, m') \<Rightarrow> (Inr True, m')))"

text \<open>
  The loop \<^verbatim>\<open>for (const connectionId of connectionIds) if (this.sendToConnection(...)) sent++\<close>
  of \<^verbatim>\<open>sendToUser\<close> and \<^verbatim>\<open>sendToChannel\<close>.
\<close>

fun send_each ::
  "(conn \<Rightarrow> 'a \<Rightarrow> manager \<Rightarrow> thrown option \<times> manager) \<Rightarrow> string list \<Rightarrow> 'a \<Rightarrow> nat \<Rightarrow> manager
   \<Rightarrow> (thrown + nat) \<times> manager" where
  "send_each send [] message sent m = (Inr sent, m)"
| "send_each send (connectionId # rest) message sent m =
     (case sendToConnection send connectionId message m of
        (Inl t, m') \<Rightarrow> (Inl t, m')
      | (Inr ok, m') \<Rightarrow> send_each send rest message (if ok then sent + 1 else sent) m')"

definition sendToUser ::
  "(conn \<Rightarrow> 'a \<Rightarrow> manager \<Rightarrow> thrown option \<times> manager) \<Rightarrow> string \<Rightarrow> 'a \<Rightarrow> manager
   \<Rightarrow> (thrown + nat) \<times> manager" where
  "sendToUser send u message m =
     (case map_of (userConnections m) u of
        None \<Rightarrow> (Inr 0, m)
      | Some connectionIds \<Rightarrow> send_each send connectionIds message 0 m)"

definition sendToChannel ::
  "(conn \<Rightarrow> 'a \<Rightarrow> manager \<Rightarrow> thrown option \<times> manager) \<Rightarrow> string \<Rightarrow> 'a \<Rightarrow> manager
   \<Rightarrow> (thrown + nat) \<times> manager" where
  "sendToChannel send ch message m =
     (case map_of (channelConnections m) ch of
        None \<Rightarrow> (Inr 0, m)
      | Some connectionIds \<Rightarrow> send_each send connectionIds message 0 m)"



section \<open>Inbound dispatcher (WebSocket)\<close>

text \<open>
  A handler registered with \<^verbatim>\<open>onMessage\<close> receives the record and the parsed frame; it may
  use the manager and the transports, and it returns or fails (throws, or rejects the
  promise that \<^verbatim>\<open>handleMessage\<close> awaits). \<^verbatim>\<open>messageHandlers\<close> is kept beside the manager.
\<close>

type_synonym handler = "conn \<Rightarrow> json \<Rightarrow> manager \<Rightarrow> thrown option \<times> manager"

definition onMessage :: "string \<Rightarrow> handler \<Rightarrow> (string \<times> handler) list \<Rightarrow> (string \<times> handler) list" where
  "onMessage ty h handlers = AList.update ty h handlers"

text \<open>
  \<^verbatim>\<open>message.type\<close> on a parsed value: \<^verbatim>\<open>null\<close> raises a \<^verbatim>\<open>TypeError\<close>, an object yields its
  member (or \<^verbatim>\<open>undefined\<close>, here \<open>None\<close>), every other value yields \<^verbatim>\<open>undefined\<close>.
\<close>

definition type_of_message :: "json \<Rightarrow> thrown + json option" where
  "type_of_message v =
     (case v of
        JNull \<Rightarrow> Inl (ThrowError ''Cannot read properties of null (reading 'type')'')
      | JObj kvs \<Rightarrow> Inr (map_of kvs ''type'')
      | _ \<Rightarrow> Inr None)"

text \<open>Truthiness of a value, as in \<^verbatim>\<open>if (!message.type)\<close>.\<close>

definition js_truthy :: "json option \<Rightarrow> bool" where
  "js_truthy v =
     (case v of
        None \<Rightarrow> False
      | Some JNull \<Rightarrow> False
      | Some (JBool b) \<Rightarrow> b
      | Some (JNum n) \<Rightarrow> n \<noteq> 0
      | Some (JStr s) \<Rightarrow> s \<noteq> []
      | Some _ \<Rightarrow> True)"

text \<open>
  A value inside a template literal: \<^verbatim>\<open>`${message.type}`\<close>. An array is joined with commas,
  \<^verbatim>\<open>null\<close> elements giving the empty string. A parsed object has no callable member, so one
  with an own member \<^verbatim>\<open>toString\<close> cannot be converted and the conversion throws a
  \<^verbatim>\<open>TypeError\<close>; every other object gives \<^verbatim>\<open>[object Object]\<close>. In an array the first element
  that throws ends the conversion.
\<close>

fun join_results :: "(thrown + string) list \<Rightarrow> string list \<Rightarrow> thrown + string" where
  "join_results [] acc = Inr (join_with '','' acc)"
| "join_results (Inl t # rs) acc = Inl t"
| "join_results (Inr x # rs) acc = join_results rs (acc @ [x])"

fun js_to_string :: "json \<Rightarrow> thrown + string" where
  "js_to_string JNull = Inr ''null''"
| "js_to_string (JBool b) = Inr (if b then ''true'' else ''false'')"
| "js_to_string (JNum n) = Inr (int_digits n)"
| "js_to_string (JStr s) = Inr s"
| "js_to_string (JArr xs) =
     join_results (map (\<lambda>x. if x = JNull then Inr [] else js_to_string x) xs) []"
| "js_to_string (JObj kvs) =
     (if map_of kvs ''toString'' \<noteq> None
      then Inl (ThrowError ''Cannot convert object to primitive value'')
      else Inr ''[object Object]'')"

text \<open>\<^verbatim>\<open>this.messageHandlers.get(message.type)\<close>: only a string is a key of the map.\<close>

definition find_handler :: "(string \<times> handler) list \<Rightarrow> json \<Rightarrow> handler option" where
  "find_handler handlers ty = (case ty of JStr s \<Rightarrow> map_of handlers s | _ \<Rightarrow> None)"

text \<open>The frames \<^verbatim>\<open>{ type: 'error', payload: { error: ... } }\<close> sent by \<^verbatim>\<open>handleMessage\<close>.\<close>

definition error_frame :: "string option \<Rightarrow> ws_message" where
  "error_frame msg =
     \<lparr> mtype = ''error'',
       payload = JObj (case msg of None \<Rightarrow> [] | Some e \<Rightarrow> [(''error'', JStr e)]),
       msg_id = None, timestamp = None \<rparr>"

text \<open>
  The \<^verbatim>\<open>try\<close> block of \<^verbatim>\<open>handleMessage\<close>, in the order of the source: parse, type check,
  size check, handler. \<open>parse\<close> is \<^verbatim>\<open>JSON.parse\<close> of the runtime (\<open>Inl e\<close>: a \<^verbatim>\<open>SyntaxError\<close>
  with message \<open>e\<close>). \<^verbatim>\<open>rawMessage.length\<close> counts the units of the string, not its bytes.
\<close>

definition try_block ::
  "(string \<Rightarrow> string + json) \<Rightarrow> (string \<times> handler) list \<Rightarrow> conn \<Rightarrow> string \<Rightarrow> manager
   \<Rightarrow> thrown option \<times> manager" where
  "try_block parse handlers connection rawMessage m =
     (case parse rawMessage of
        Inl e \<Rightarrow> (Some (ThrowError e), m)
      | Inr message \<Rightarrow>
          (case type_of_message message of
             Inl t \<Rightarrow> (Some t, m)
           | Inr ty \<Rightarrow>
               if \<not> js_truthy ty then (Some (ThrowError ''Message type is required''), m)
               else if int (length rawMessage) > max_message_size m
               then (Some (ThrowError ''Message size exceeds maximum allowed size''), m)
               else (case find_handler handlers (the ty) of
                       Some h \<Rightarrow> h connection message m
                     | None \<Rightarrow>
                         (case js_to_string (the ty) of
                            Inl t \<Rightarrow> (Some t, m)
                          | Inr name \<Rightarrow>
                              sendMessage connection
                                (error_frame (Some (''No handler found for message type: ''
                                                    @ name))) m))))"

text \<open>
  The \<^verbatim>\<open>catch\<close> block: \<^verbatim>\<open>connection.send({ type: 'error', payload: { error: error.message } })\<close>.
  Reading \<^verbatim>\<open>message\<close> of \<^verbatim>\<open>null\<close> or \<^verbatim>\<open>undefined\<close> throws; an \<^verbatim>\<open>undefined\<close> message is
  dropped by \<^verbatim>\<open>JSON.stringify\<close>. Nothing guards the block, so what it throws leaves
  \<^verbatim>\<open>handleMessage\<close>.
\<close>

definition catch_block :: "conn \<Rightarrow> thrown \<Rightarrow> manager \<Rightarrow> thrown option \<times> manager" where
  "catch_block connection err m =
     (case err of
        ThrowError e \<Rightarrow> sendMessage connection (error_frame (Some e)) m
      | ThrowOther \<Rightarrow> sendMessage connection (error_frame None) m
      | ThrowNullish \<Rightarrow>
          (Some (ThrowError ''Cannot read properties of undefined (reading 'message')''), m))"

text \<open>\<^verbatim>\<open>handleMessage\<close>: \<open>Some t\<close> is a rejection of the returned promise.\<close>

definition handleMessage ::
  "(string \<Rightarrow> string + json) \<Rightarrow> (string \<times> handler) list \<Rightarrow> string \<Rightarrow> string \<Rightarrow> manager
   \<Rightarrow> thrown option \<times> manager" where
  "handleMessage parse handlers connectionId rawMessage m =
     (case map_of (connections m) connectionId of
        None \<Rightarrow> (None, m)
      | Some connection \<Rightarrow>
          (case try_block parse handlers connection rawMessage m of
             (None, m') \<Rightarrow> (None, m')
           | (Some err, m') \<Rightarrow> catch_block connection err m'))"

subsection \<open>A parser for concrete frames\<close>

text \<open>
  \<^verbatim>\<open>JSON.parse\<close> belongs to the runtime, so \<open>handleMessage\<close> takes it as a parameter. For
  evaluating concrete frames, \<open>JSON_parse\<close> reads JSON texts with integer numbers and without
  \<^verbatim>\<open>\u\<close> escapes; a text outside that fragment is reported like a syntax error. The text
  of a \<^verbatim>\<open>SyntaxError\<close> is the engine's; one fixed text stands for it.
\<close>

fun skip_ws :: "string \<Rightarrow> string" where
  "skip_ws [] = []"
| "skip_ws (c # cs) =
     (if c = CHR '' '' \<or> c = CHR 0x09 \<or> c = CHR 0x0A \<or> c = CHR 0x0D then skip_ws cs else c # cs)"

definition expect :: "char \<Rightarrow> string \<Rightarrow> string option" where
  "expect c s = (case skip_ws s of [] \<Rightarrow> None | d # r \<Rightarrow> if d = c then Some r else None)"

definition is_digit :: "char \<Rightarrow> bool" where
  "is_digit c = (c \<in> set ''0123456789'')"

definition digit_val :: "char \<Rightarrow> nat" where
  "digit_val c = (of_char c :: nat) - 48"

text \<open>The characters of a string literal after the opening quotation mark.\<close>

fun parse_chars :: "string \<Rightarrow> string \<Rightarrow> (string \<times> string) option" where
  "parse_chars acc [] = None"
| "parse_chars acc [c] = (if c = CHR 0x22 then Some (acc, []) else None)"
| "parse_chars acc (c # d # cs) =
     (if c = CHR 0x22 then Some (acc, d # cs)
      else if c = CHR 0x5C then
        (if d = CHR 0x22 \<or> d = CHR 0x5C \<or> d = CHR ''/'' then parse_chars (acc @ [d]) cs
         else if d = CHR ''b'' then parse_chars (acc @ [CHR 0x08]) cs
         else if d = CHR ''f'' then parse_chars (acc @ [CHR 0x0C]) cs
         else if d = CHR ''n'' then parse_chars (acc @ [CHR 0x0A]) cs
         else if d = CHR ''r'' then parse_chars (acc @ [CHR 0x0D]) cs
         else if d = CHR ''t'' then parse_chars (acc @ [CHR 0x09]) cs
         else None)
      else if (of_char c :: nat) < 32 then None
      else parse_chars (acc @ [c]) (d # cs))"

text \<open>An integer literal: an optional minus sign, then \<^verbatim>\<open>0\<close> or digits without a leading zero.\<close>

definition parse_number :: "string \<Rightarrow> (json \<times> string) option" where
  "parse_number s =
     (let neg = (s \<noteq> [] \<and> hd s = CHR ''-'');
          body = (if neg then tl s else s);
          ds = takeWhile is_digit body;
          rest = dropWhile is_digit body
      in if ds = [] \<or> (length ds > 1 \<and> hd ds = CHR ''0'') then None
         else if rest \<noteq> [] \<and> hd rest \<in> set ''.eE'' then None
         else let n = foldl (\<lambda>a d. 10 * a + int (digit_val d)) 0 ds
              in Some (JNum (if neg then - n else n), rest))"

definition literal :: "string \<Rightarrow> json \<Rightarrow> string \<Rightarrow> (json \<times> string) option" where
  "literal word v s = (if take (length word) s = word then Some (v, drop (length word) s) else None)"

text \<open>
  Values, the elements of an array after \<^verbatim>\<open>[\<close> and the members of an object after \<^verbatim>\<open>{\<close>.
  The first argument bounds the number of calls; every call consumes a character, so the
  length of the text is enough. A repeated key keeps its first place and its last value.
\<close>

fun parse_value :: "nat \<Rightarrow> string \<Rightarrow> (json \<times> string) option"
  and parse_elements :: "nat \<Rightarrow> json list \<Rightarrow> string \<Rightarrow> (json \<times> string) option"
  and parse_members :: "nat \<Rightarrow> (string \<times> json) list \<Rightarrow> string \<Rightarrow> (json \<times> string) option" where
  "parse_value 0 s = None"
| "parse_value (Suc n) s =
     (case skip_ws s of
        [] \<Rightarrow> None
      | c # cs \<Rightarrow>
          if c = CHR ''n'' then literal ''null'' JNull (c # cs)
          else if c = CHR ''t'' then literal ''true'' (JBool True) (c # cs)
          else if c = CHR ''f'' then literal ''false'' (JBool False) (c # cs)
          else if c = CHR 0x22 then
            (case parse_chars [] cs of None \<Rightarrow> None | Some (str, r) \<Rightarrow> Some (JStr str, r))
          else if c = CHR ''['' then
            (case expect CHR '']'' cs of Some r \<Rightarrow> Some (JArr [], r) | None \<Rightarrow> parse_elements n [] cs)
          else if c = CHR ''{'' then
            (case expect CHR ''}'' cs of Some r \<Rightarrow> Some (JObj [], r) | None \<Rightarrow> parse_members n [] cs)
          else parse_number (c # cs))"
| "parse_elements 0 acc s = None"
| "parse_elements (Suc n) acc s =
     (case parse_value n s of
        None \<Rightarrow> None
      | Some (v, r) \<Rightarrow>
          (case expect CHR '','' r of
             Some r' \<Rightarrow> parse_elements n (acc @ [v]) r'
           | None \<Rightarrow>
               (case expect CHR '']'' r of Some r' \<Rightarrow> Some (JArr (acc @ [v]), r') | None \<Rightarrow> None)))"
| "parse_members 0 acc s = None"
| "parse_members (Suc n) acc s =
     (case expect (CHR 0x22) s of
        None \<Rightarrow> None
      | Some r0 \<Rightarrow>
          (case parse_chars [] r0 of
             None \<Rightarrow> None
           | Some (k, r1) \<Rightarrow>
               (case expect CHR '':'' r1 of
                  None \<Rightarrow> None
                | Some r2 \<Rightarrow>
                    (case parse_value n r2 of
                       None \<Rightarrow> None
                     | Some (v, r3) \<Rightarrow>
                         (case expect CHR '','' r3 of
                            Some r4 \<Rightarrow> parse_members n (AList.update k v acc) r4
                          | None \<Rightarrow>
                              (case expect CHR ''}'' r3 of
                                 Some r4 \<Rightarrow> Some (JObj (AList.update k v acc), r4)
                               | None \<Rightarrow> None))))))"

definition JSON_parse :: "string \<Rightarrow> string + json" where
  "JSON_parse s =
     (case parse_value (Suc (length s)) s of
        None \<Rightarrow> Inl ''Unexpected token in JSON''
      | Some (v, r) \<Rightarrow> if skip_ws r = [] then Inr v else Inl ''Unexpected token in JSON'')"

section \<open>Call sequences and the invariants of the indices\<close>

text \<open>A call of \<^verbatim>\<open>addConnection\<close> or \<^verbatim>\<open>removeConnection\<close>, and a sequence of calls run in order.\<close>

datatype call =
    Add string "event list \<Rightarrow> string \<Rightarrow> thrown option"
        "event list \<Rightarrow> int option \<Rightarrow> string option \<Rightarrow> thrown option"
        "string option" "string option"
  | Remove string

fun apply_call :: "call \<Rightarrow> manager \<Rightarrow> manager" where
  "apply_call (Add connectionId sf cf uid ch) m = snd (addConnection connectionId sf cf uid ch m)"
| "apply_call (Remove connectionId) m = removeConnection connectionId m"

fun run :: "call list \<Rightarrow> manager \<Rightarrow> manager" where
  "run [] m = m"
| "run (c # cs) m = run cs (apply_call c m)"

text \<open>No call of \<^verbatim>\<open>addConnection\<close> in the sequence passes an id that is registered at that time.\<close>

fun no_reuse :: "call list \<Rightarrow> manager \<Rightarrow> bool" where
  "no_reuse [] m = True"
| "no_reuse (Add connectionId sf cf uid ch # cs) m =
     (connectionId \<notin> fst ` set (connections m)
      \<and> no_reuse cs (apply_call (Add connectionId sf cf uid ch) m))"
| "no_reuse (Remove connectionId # cs) m = no_reuse cs (apply_call (Remove connectionId) m)"

text \<open>
  The invariants of the three indices. A user id or channel counts as set when it is
  truthy, as in the guards of the code.
  \<^enum> every id in a set of \<open>userConnections\<close> (\<open>channelConnections\<close>) is a key of
    \<open>connections\<close> whose record has that user id (channel);
  \<^enum> no set is empty;
  \<^enum> no user has more than \<^verbatim>\<open>maxConnectionsPerUser\<close> ids;
  \<^enum> every registered record with a user id (channel) is in the set of that user (channel).
\<close>

definition index_sound ::
  "(conn \<Rightarrow> string option) \<Rightarrow> (string \<times> conn) list \<Rightarrow> (string \<times> string list) list \<Rightarrow> bool" where
  "index_sound key conns idx =
     (\<forall>(k, ids) \<in> set idx. \<forall>i \<in> set ids.
        case map_of conns i of None \<Rightarrow> False | Some c \<Rightarrow> key c = Some k)"

definition index_complete ::
  "(conn \<Rightarrow> string option) \<Rightarrow> (string \<times> conn) list \<Rightarrow> (string \<times> string list) list \<Rightarrow> bool" where
  "index_complete key conns idx =
     (\<forall>(i, c) \<in> set conns.
        truthy (key c) \<longrightarrow>
          (case map_of idx (the (key c)) of None \<Rightarrow> False | Some ids \<Rightarrow> i \<in> set ids))"

definition index_nonempty :: "(string \<times> string list) list \<Rightarrow> bool" where
  "index_nonempty idx = (\<forall>(k, ids) \<in> set idx. ids \<noteq> [])"

definition within_quota :: "manager \<Rightarrow> bool" where
  "within_quota m = (\<forall>(k, ids) \<in> set (userConnections m). int (length ids) \<le> max_per_user m)"

definition index_invariants :: "manager \<Rightarrow> bool" where
  "index_invariants m =
     (index_sound userId (connections m) (userConnections m)
      \<and> index_sound channel (connections m) (channelConnections m)
      \<and> index_complete userId (connections m) (userConnections m)
      \<and> index_complete channel (connections m) (channelConnections m)
      \<and> index_nonempty (userConnections m)
      \<and> index_nonempty (channelConnections m)
      \<and> within_quota m)"

text \<open>
  The maps are well formed: keys occur once, a set of ids has no repetition (so that its
  length is its size), and the empty string is not a key of an index.
\<close>

definition index_wf :: "(string \<times> string list) list \<Rightarrow> bool" where
  "index_wf idx =
     (distinct (map fst idx) \<and> (\<forall>(k, ids) \<in> set idx. distinct ids) \<and> [] \<notin> fst ` set idx)"

definition wf_manager :: "manager \<Rightarrow> bool" where
  "wf_manager m =
     (distinct (map fst (connections m)) \<and> index_wf (userConnections m)
      \<and> index_wf (channelConnections m))"

section \<open>Notions used in the statements\<close>

text \<open>The record literal built by \<^verbatim>\<open>addConnection\<close>.\<close>

definition new_conn ::
  "string \<Rightarrow> (event list \<Rightarrow> string \<Rightarrow> thrown option) \<Rightarrow>
   (event list \<Rightarrow> int option \<Rightarrow> string option \<Rightarrow> thrown option) \<Rightarrow>
   string option \<Rightarrow> string option \<Rightarrow> manager \<Rightarrow> conn" where
  "new_conn i sf cf u ch m =
     \<lparr> conn_id = i, userId = u, channel = ch, connectedAt = clock m, sendFn = sf, closeFn = cf \<rparr>"

text \<open>
  \<^verbatim>\<open>close()\<close> of one record called \<open>n\<close> times in a row (what a call throws is dropped by the
  caller), and the number of \<^verbatim>\<open>closeFn\<close> calls recorded for a connection id.
\<close>

fun close_times :: "nat \<Rightarrow> conn \<Rightarrow> int option \<Rightarrow> string option \<Rightarrow> manager \<Rightarrow> manager" where
  "close_times 0 c code reason m = m"
| "close_times (Suc n) c code reason m = close_times n c code reason (snd (conn_close c code reason m))"

fun is_closeRaw :: "string \<Rightarrow> event \<Rightarrow> bool" where
  "is_closeRaw i (CloseRaw j code reason) = (j = i)"
| "is_closeRaw i (SendRaw j d) = False"

definition closeRaw_calls :: "string \<Rightarrow> manager \<Rightarrow> nat" where
  "closeRaw_calls i m = length (filter (is_closeRaw i) (trace m))"

text \<open>
  The SSE frame in the words of the specification: the lines \<^verbatim>\<open>id\<close>, \<^verbatim>\<open>event\<close>, \<^verbatim>\<open>data\<close>, \<^verbatim>\<open>retry\<close>,
  each optional one when the field is present, then a blank line. \<open>drop_falsy\<close> forgets the
  fields that are present but falsy (an empty string, the number 0).
\<close>

definition sse_frame_spec :: "sse_event \<Rightarrow> string" where
  "sse_frame_spec event =
     (case ev_id event of None \<Rightarrow> [] | Some i \<Rightarrow> ''id: '' @ i @ [CHR 0x0A])
     @ (case ev_event event of None \<Rightarrow> [] | Some e \<Rightarrow> ''event: '' @ e @ [CHR 0x0A])
     @ ''data: '' @ data_text (ev_data event) @ [CHR 0x0A]
     @ (case ev_retry event of None \<Rightarrow> [] | Some r \<Rightarrow> ''retry: '' @ int_digits r @ [CHR 0x0A])
     @ [CHR 0x0A]"

definition drop_falsy :: "sse_event \<Rightarrow> sse_event" where
  "drop_falsy event =
     event \<lparr> ev_id := (if truthy (ev_id event) then ev_id event else None),
             ev_event := (if truthy (ev_event event) then ev_event event else None),
             ev_retry := (if ev_retry event = Some 0 then None else ev_retry event) \<rparr>"

text \<open>
  The byte length of a frame, that is the length of its UTF-8 encoding: one byte for a unit
  below U+0080, two for the others. \<^verbatim>\<open>WebSocketManagerOptions\<close> documents \<^verbatim>\<open>maxMessageSize\<close> in
  bytes.
\<close>

definition byte_length :: "string \<Rightarrow> nat" where
  "byte_length s = sum_list (map (\<lambda>c. if (of_char c :: nat) < 128 then 1 else 2) s)"












section \<open>Concrete transports, options, messages and handlers\<close>

text \<open>
  Transports for concrete runs: a socket whose writes succeed, a socket whose writes throw,
  a close that succeeds.
\<close>

definition returns_normally :: "event list \<Rightarrow> string \<Rightarrow> thrown option" where
  "returns_normally l d = None"

definition write_fails :: "event list \<Rightarrow> string \<Rightarrow> thrown option" where
  "write_fails l d = Some (ThrowError ''write after end'')"

definition closes_normally :: "event list \<Rightarrow> int option \<Rightarrow> string option \<Rightarrow> thrown option" where
  "closes_normally l c r = None"

text \<open>
  The options object \<^verbatim>\<open>{}\<close>, \<^verbatim>\<open>{ maxConnectionsPerUser: 2 }\<close> and \<^verbatim>\<open>{ maxMessageSize: n }\<close>.
\<close>

definition default_options :: manager_options where
  "default_options =
     \<lparr> heartbeatInterval = None, connectionTimeout = None,
       maxConnectionsPerUser = None, maxMessageSize = None \<rparr>"

definition quota_two :: manager_options where
  "quota_two = \<lparr> heartbeatInterval = None, connectionTimeout = None,
       maxConnectionsPerUser = Some 2, maxMessageSize = None \<rparr>"

definition frame_limit :: "int \<Rightarrow> manager_options" where
  "frame_limit n = \<lparr> heartbeatInterval = None, connectionTimeout = None,
       maxConnectionsPerUser = None, maxMessageSize = Some n \<rparr>"

text \<open>
  The message \<^verbatim>\<open>{ type: 'hello', payload: 1 }\<close>, the events \<^verbatim>\<open>{ data: 'x', retry: 0 }\<close> and
  \<^verbatim>\<open>{ id: '42', event: 'progress', data: { done: 3 }, retry: 1500 }\<close>, and a handler that
  throws \<^verbatim>\<open>new Error('kaput')\<close>.
\<close>

definition hello_message :: ws_message where
  "hello_message = \<lparr> mtype = ''hello'', payload = JNum 1, msg_id = None, timestamp = None \<rparr>"

definition retry_zero :: sse_event where
  "retry_zero = \<lparr> ev_id = None, ev_event = None, ev_data = DataString ''x'', ev_retry = Some 0 \<rparr>"

definition progress_event :: sse_event where
  "progress_event = \<lparr> ev_id = Some ''42'', ev_event = Some ''progress'',
       ev_data = DataObject (JObj [(''done'', JNum 3)]), ev_retry = Some 1500 \<rparr>"

definition failing_handler :: handler where
  "failing_handler c message m = (Some (ThrowError ''kaput''), m)"

text \<open>A handler that rejects with \<^verbatim>\<open>undefined\<close>, as \<^verbatim>\<open>Promise.reject()\<close> does.\<close>

definition rejecting_handler :: handler where
  "rejecting_handler c message m = (Some ThrowNullish, m)"

section \<open>Maps and sets as lists\<close>

lemma map_of_track:
  "map_of (track k i idx) =
     (map_of idx)(k \<mapsto> (case map_of idx k of None \<Rightarrow> [i] | Some ids \<Rightarrow> set_add i ids))"
  by (simp add: track_def update_conv' split: option.splits)

lemma map_of_untrack:
  "map_of (untrack k i idx) =
     (case map_of idx k of
        None \<Rightarrow> map_of idx
      | Some ids \<Rightarrow> if set_delete i ids = [] then (map_of idx)(k := None)
                    else (map_of idx)(k \<mapsto> set_delete i ids))"
  by (simp add: untrack_def update_conv' delete_conv' Let_def split: option.splits)

lemma keys_track: "fst ` set (track k i idx) = insert k (fst ` set idx)"
  by (simp add: track_def dom_update split: option.splits)

lemma map_of_Some_key: "map_of idx k = Some v \<Longrightarrow> k \<in> fst ` set idx"
  by (metis domI dom_map_of_conv_image_fst)

lemma keys_untrack: "fst ` set (untrack k i idx) \<subseteq> fst ` set idx"
  using dom_delete_subset[of k idx]
  by (auto simp: untrack_def dom_update Let_def map_of_Some_key split: option.splits)

lemma distinct_set_add: "distinct ids \<Longrightarrow> distinct (set_add i ids)"
  by (simp add: set_add_def)

lemma distinct_set_delete: "distinct ids \<Longrightarrow> distinct (set_delete i ids)"
  by (simp add: set_delete_def distinct_removeAll)

lemma set_set_add: "set (set_add i ids) = insert i (set ids)"
  by (auto simp: set_add_def)

lemma set_set_delete: "set (set_delete i ids) = set ids - {i}"
  by (auto simp: set_delete_def)

lemma index_wf_iff:
  "index_wf idx \<longleftrightarrow>
     distinct (map fst idx) \<and> (\<forall>k ids. map_of idx k = Some ids \<longrightarrow> distinct ids) \<and> map_of idx [] = None"
proof (cases "distinct (map fst idx)")
  case True
  then have "(\<forall>(k, ids) \<in> set idx. distinct ids) = (\<forall>k ids. map_of idx k = Some ids \<longrightarrow> distinct ids)"
    by (simp add: map_of_eq_Some_iff split_def) (metis prod.collapse fst_conv snd_conv)
  with True show ?thesis
    by (simp add: index_wf_def map_of_eq_None_iff)
next
  case False
  then show ?thesis by (simp add: index_wf_def)
qed

lemma index_wf_track: "index_wf idx \<Longrightarrow> k \<noteq> [] \<Longrightarrow> index_wf (track k i idx)"
  unfolding index_wf_iff map_of_track
  by (auto simp: track_def distinct_update distinct_set_add split: option.splits if_splits)

lemma index_wf_untrack:
  assumes "index_wf idx"
  shows "index_wf (untrack k i idx)"
proof (cases "map_of idx k")
  case None
  with assms show ?thesis by (simp add: untrack_def)
next
  case (Some ids)
  from assms have d: "distinct (map fst idx)"
    and e: "\<And>k ids. map_of idx k = Some ids \<Longrightarrow> distinct ids"
    and n: "map_of idx [] = None"
    by (simp_all add: index_wf_iff)
  from assms have e': "\<And>k ids. (k, ids) \<in> set idx \<Longrightarrow> distinct ids"
    by (auto simp: index_wf_def)
  show ?thesis
  proof (cases "set_delete i ids = []")
    case True
    with Some have u: "untrack k i idx = AList.delete k idx"
      by (simp add: untrack_def)
    show ?thesis
      unfolding u index_wf_iff delete_conv'
      using d n by (auto simp: distinct_delete dest: e e' split: if_splits)
  next
    case False
    with Some have u: "untrack k i idx = AList.update k (set_delete i ids) idx"
      by (simp add: untrack_def Let_def)
    have "distinct (set_delete i ids)"
      using e[OF Some] by (rule distinct_set_delete)
    moreover have "k \<noteq> []" using Some n by auto
    ultimately show ?thesis
      unfolding u index_wf_iff update_conv'
      using d n by (auto simp: distinct_update dest: e e' split: if_splits)
  qed
qed

lemma wf_addConnection: "wf_manager m \<Longrightarrow> wf_manager (snd (addConnection i sf cf u ch m))"
  by (cases u; cases ch) (auto simp: addConnection_def wf_manager_def Let_def distinct_update index_wf_track)

lemma wf_removeConnection: "wf_manager m \<Longrightarrow> wf_manager (removeConnection i m)"
  by (auto simp: removeConnection_def wf_manager_def Let_def distinct_delete index_wf_untrack split: option.splits)


lemma option_case_ex:
  "(case x of None \<Rightarrow> False | Some c \<Rightarrow> P c) = (\<exists>c. x = Some c \<and> P c)"
  by (cases x) simp_all

lemma index_sound_iff:
  assumes "distinct (map fst idx)"
  shows "index_sound key conns idx \<longleftrightarrow>
     (\<forall>k ids i. map_of idx k = Some ids \<longrightarrow> i \<in> set ids \<longrightarrow>
        (\<exists>c. map_of conns i = Some c \<and> key c = Some k))"
proof -
  have "\<And>k ids. ((k, ids) \<in> set idx) = (map_of idx k = Some ids)"
    using assms by simp
  then show ?thesis
    unfolding index_sound_def option_case_ex by (simp add: Ball_def del: map_of_eq_Some_iff)
qed

lemma index_complete_iff:
  assumes "distinct (map fst conns)"
  shows "index_complete key conns idx \<longleftrightarrow>
     (\<forall>i c. map_of conns i = Some c \<longrightarrow> truthy (key c) \<longrightarrow>
        (\<exists>ids. map_of idx (the (key c)) = Some ids \<and> i \<in> set ids))"
proof -
  have "\<And>i c. ((i, c) \<in> set conns) = (map_of conns i = Some c)"
    using assms by simp
  then show ?thesis
    unfolding index_complete_def option_case_ex by (simp add: Ball_def del: map_of_eq_Some_iff)
qed

lemma index_nonempty_iff:
  assumes "distinct (map fst idx)"
  shows "index_nonempty idx \<longleftrightarrow> (\<forall>k ids. map_of idx k = Some ids \<longrightarrow> ids \<noteq> [])"
proof -
  have "\<And>k ids. ((k, ids) \<in> set idx) = (map_of idx k = Some ids)"
    using assms by simp
  then show ?thesis
    unfolding index_nonempty_def by (simp add: Ball_def del: map_of_eq_Some_iff)
qed


lemma index_wf_distinct: "index_wf idx \<Longrightarrow> distinct (map fst idx)"
  by (simp add: index_wf_def)

lemma index_wf_no_empty_key: "index_wf idx \<Longrightarrow> map_of idx [] = None"
  by (simp add: index_wf_iff)

lemma truthy_iff: "truthy x \<longleftrightarrow> (\<exists>s. x = Some s \<and> s \<noteq> [])"
  by (cases x) simp_all

lemma index_add:
  assumes dc: "distinct (map fst conns)" and wf: "index_wf idx"
    and s: "index_sound key conns idx" and c: "index_complete key conns idx"
    and n: "index_nonempty idx" and fresh: "map_of conns i = None"
    and idx': "idx' = (if truthy (key r) then track (the (key r)) i idx else idx)"
  shows "index_sound key (AList.update i r conns) idx'"
    and "index_complete key (AList.update i r conns) idx'"
    and "index_nonempty idx'"
proof -
  have di: "distinct (map fst idx)" using wf by (rule index_wf_distinct)
  have S: "\<And>k ids j. map_of idx k = Some ids \<Longrightarrow> j \<in> set ids \<Longrightarrow>
             \<exists>c. map_of conns j = Some c \<and> key c = Some k"
    using s unfolding index_sound_iff[OF di] by blast
  have C: "\<And>j c. map_of conns j = Some c \<Longrightarrow> truthy (key c) \<Longrightarrow>
             \<exists>ids. map_of idx (the (key c)) = Some ids \<and> j \<in> set ids"
    using c unfolding index_complete_iff[OF dc] by blast
  have N: "\<And>k ids. map_of idx k = Some ids \<Longrightarrow> ids \<noteq> []"
    using n unfolding index_nonempty_iff[OF di] by blast
  have wf': "index_wf idx'"
    using wf idx' by (auto simp: index_wf_track truthy_iff)
  have di': "distinct (map fst idx')" using wf' by (rule index_wf_distinct)
  have dc': "distinct (map fst (AList.update i r conns))"
    using dc by (rule distinct_update)
  show "index_sound key (AList.update i r conns) idx'"
    unfolding index_sound_iff[OF di'] update_conv'
  proof (intro allI impI)
    fix k ids j
    assume a: "map_of idx' k = Some ids" and b: "j \<in> set ids"
    show "\<exists>c. ((map_of conns)(i \<mapsto> r)) j = Some c \<and> key c = Some k"
    proof (cases "j = i")
      case True
      have "key r = Some k"
      proof (rule ccontr)
        assume ne: "key r \<noteq> Some k"
        then have "map_of idx k = Some ids"
          using a idx' by (auto simp: map_of_track truthy_iff split: if_splits)
        from S[OF this b] True fresh show False by simp
      qed
      with True show ?thesis by simp
    next
      case False
      then have "\<exists>ids0. map_of idx k = Some ids0 \<and> j \<in> set ids0"
        using a b idx'
        by (auto simp: map_of_track truthy_iff set_set_add split: if_splits option.splits)
      then obtain ids0 where "map_of idx k = Some ids0" "j \<in> set ids0" by blast
      from S[OF this] False show ?thesis by simp
    qed
  qed
  show "index_complete key (AList.update i r conns) idx'"
    unfolding index_complete_iff[OF dc'] update_conv'
  proof (intro allI impI)
    fix j c
    assume a: "((map_of conns)(i \<mapsto> r)) j = Some c" and t: "truthy (key c)"
    show "\<exists>ids. map_of idx' (the (key c)) = Some ids \<and> j \<in> set ids"
    proof (cases "j = i")
      case True
      with a have "c = r" by simp
      with t True idx' show ?thesis
        by (auto simp: map_of_track set_set_add split: option.splits)
    next
      case False
      with a have "map_of conns j = Some c" by simp
      from C[OF this t] obtain ids0 where "map_of idx (the (key c)) = Some ids0" "j \<in> set ids0"
        by blast
      then show ?thesis using idx'
        by (auto simp: map_of_track set_set_add split: option.splits)
    qed
  qed
  show "index_nonempty idx'"
    unfolding index_nonempty_iff[OF di']
    using N idx' by (auto simp: map_of_track set_add_def split: if_splits option.splits)
qed


lemma index_remove:
  assumes dc: "distinct (map fst conns)" and wf: "index_wf idx"
    and s: "index_sound key conns idx" and c: "index_complete key conns idx"
    and n: "index_nonempty idx" and reg: "map_of conns i = Some r"
    and idx': "idx' = (if truthy (key r) then untrack (the (key r)) i idx else idx)"
  shows "index_sound key (AList.delete i conns) idx'"
    and "index_complete key (AList.delete i conns) idx'"
    and "index_nonempty idx'"
proof -
  have di: "distinct (map fst idx)" using wf by (rule index_wf_distinct)
  have S: "\<And>k ids j. map_of idx k = Some ids \<Longrightarrow> j \<in> set ids \<Longrightarrow>
             \<exists>c. map_of conns j = Some c \<and> key c = Some k"
    using s unfolding index_sound_iff[OF di] by blast
  have C: "\<And>j c. map_of conns j = Some c \<Longrightarrow> truthy (key c) \<Longrightarrow>
             \<exists>ids. map_of idx (the (key c)) = Some ids \<and> j \<in> set ids"
    using c unfolding index_complete_iff[OF dc] by blast
  have N: "\<And>k ids. map_of idx k = Some ids \<Longrightarrow> ids \<noteq> []"
    using n unfolding index_nonempty_iff[OF di] by blast
  have E: "map_of idx [] = None" using wf by (rule index_wf_no_empty_key)
  have wf': "index_wf idx'"
    using wf idx' by (auto simp: index_wf_untrack)
  have di': "distinct (map fst idx')" using wf' by (rule index_wf_distinct)
  have dc': "distinct (map fst (AList.delete i conns))"
    using dc by (rule distinct_delete)
  have old: "\<exists>ids0. map_of idx k = Some ids0 \<and> j \<in> set ids0 \<and> j \<noteq> i"
    if a: "map_of idx' k = Some ids" and b: "j \<in> set ids" for k ids j
  proof (cases "truthy (key r)")
    case True
    then obtain kr where kr: "key r = Some kr" "kr \<noteq> []" by (auto simp: truthy_iff)
    show ?thesis
    proof (cases "k = kr")
      case True
      with a b idx' kr show ?thesis
        by (auto simp: map_of_untrack set_set_delete split: option.splits if_splits)
    next
      case False
      with a idx' kr have m: "map_of idx k = Some ids"
        by (auto simp: map_of_untrack split: option.splits if_splits)
      from S[OF m b] reg kr False have "j \<noteq> i" by auto
      with m b show ?thesis by blast
    qed
  next
    case False
    with a idx' have m: "map_of idx k = Some ids" by simp
    from m E have "k \<noteq> []" by auto
    with S[OF m b] reg False have "j \<noteq> i" by (auto simp: truthy_iff)
    with m b show ?thesis by blast
  qed
  show "index_sound key (AList.delete i conns) idx'"
    unfolding index_sound_iff[OF di'] delete_conv'
  proof (intro allI impI)
    fix k ids j
    assume a: "map_of idx' k = Some ids" and b: "j \<in> set ids"
    from old[OF a b] obtain ids0 where m: "map_of idx k = Some ids0" "j \<in> set ids0" and ne: "j \<noteq> i"
      by blast
    from S[OF m] ne show "\<exists>c. ((map_of conns)(i := None)) j = Some c \<and> key c = Some k"
      by simp
  qed
  show "index_complete key (AList.delete i conns) idx'"
    unfolding index_complete_iff[OF dc'] delete_conv'
  proof (intro allI impI)
    fix j c
    assume a: "((map_of conns)(i := None)) j = Some c" and t: "truthy (key c)"
    then have ne: "j \<noteq> i" and m: "map_of conns j = Some c"
      by (auto split: if_splits)
    from C[OF m t] obtain ids0 where i0: "map_of idx (the (key c)) = Some ids0" "j \<in> set ids0"
      by blast
    then have "j \<in> set (set_delete i ids0)" using ne by (simp add: set_set_delete)
    then have "set_delete i ids0 \<noteq> []" by auto
    then show "\<exists>ids. map_of idx' (the (key c)) = Some ids \<and> j \<in> set ids"
      using i0 ne idx'
      by (auto simp: map_of_untrack set_set_delete split: option.splits)
  qed
  show "index_nonempty idx'"
    unfolding index_nonempty_iff[OF di']
    using N idx' by (auto simp: map_of_untrack split: if_splits option.splits)
qed


lemma addConnection_reject:
  assumes "truthy u" and "int (getUserConnectionCount (the u) m) \<ge> max_per_user m"
  shows "addConnection i sf cf u ch m = (Inl (quota_error (max_per_user m) (the u)), m)"
  using assms by (simp add: addConnection_def)

lemma addConnection_accept:
  assumes "\<not> (truthy u \<and> int (getUserConnectionCount (the u) m) \<ge> max_per_user m)"
  shows "addConnection i sf cf u ch m =
     (Inr (new_conn i sf cf u ch m),
      m \<lparr> connections := AList.update i (new_conn i sf cf u ch m) (connections m),
          userConnections := (if truthy u then track (the u) i (userConnections m)
                              else userConnections m),
          channelConnections := (if truthy ch then track (the ch) i (channelConnections m)
                                 else channelConnections m) \<rparr>)"
  using assms by (auto simp: addConnection_def new_conn_def Let_def)

lemma removeConnection_absent:
  "map_of (connections m) i = None \<Longrightarrow> removeConnection i m = m"
  by (simp add: removeConnection_def)

lemma removeConnection_present:
  assumes "map_of (connections m) i = Some r"
  shows "removeConnection i m =
     m \<lparr> connections := AList.delete i (connections m),
         userConnections := (if truthy (userId r) then untrack (the (userId r)) i (userConnections m)
                             else userConnections m),
         channelConnections := (if truthy (channel r)
                                then untrack (the (channel r)) i (channelConnections m)
                                else channelConnections m) \<rparr>"
  using assms by (auto simp: removeConnection_def Let_def)

lemma within_quota_iff:
  assumes "distinct (map fst (userConnections m))"
  shows "within_quota m \<longleftrightarrow>
     (\<forall>k ids. map_of (userConnections m) k = Some ids \<longrightarrow> int (length ids) \<le> max_per_user m)"
proof -
  have "\<And>k ids. ((k, ids) \<in> set (userConnections m)) = (map_of (userConnections m) k = Some ids)"
    using assms by simp
  then show ?thesis
    unfolding within_quota_def by (simp add: Ball_def del: map_of_eq_Some_iff)
qed

lemma length_set_add: "length (set_add i ids) \<le> Suc (length ids)"
  by (simp add: set_add_def)

lemma length_set_delete: "length (set_delete i ids) \<le> length ids"
  by (simp add: set_delete_def)

lemma inv_addConnection:
  assumes wf: "wf_manager m" and inv: "index_invariants m"
    and fresh: "i \<notin> fst ` set (connections m)"
  shows "index_invariants (snd (addConnection i sf cf u ch m))"
proof (cases "truthy u \<and> int (getUserConnectionCount (the u) m) \<ge> max_per_user m")
  case True
  then show ?thesis using inv by (simp add: addConnection_reject)
next
  case False
  let ?r = "new_conn i sf cf u ch m"
  let ?m' = "snd (addConnection i sf cf u ch m)"
  have dc: "distinct (map fst (connections m))" and wu: "index_wf (userConnections m)"
    and wc: "index_wf (channelConnections m)"
    using wf by (simp_all add: wf_manager_def)
  have fr: "map_of (connections m) i = None"
    using fresh by (simp add: map_of_eq_None_iff)
  have c': "connections ?m' = AList.update i ?r (connections m)"
    and u': "userConnections ?m' = (if truthy (userId ?r) then track (the (userId ?r)) i (userConnections m) else userConnections m)"
    and ch': "channelConnections ?m' = (if truthy (channel ?r) then track (the (channel ?r)) i (channelConnections m) else channelConnections m)"
    and o': "max_per_user ?m' = max_per_user m"
    by (simp_all add: addConnection_accept[OF False] new_conn_def max_per_user_def)
  from inv have su: "index_sound userId (connections m) (userConnections m)"
    and sc: "index_sound channel (connections m) (channelConnections m)"
    and cu: "index_complete userId (connections m) (userConnections m)"
    and cc: "index_complete channel (connections m) (channelConnections m)"
    and nu: "index_nonempty (userConnections m)"
    and nc: "index_nonempty (channelConnections m)"
    and q: "within_quota m"
    by (simp_all add: index_invariants_def)
  have wf': "wf_manager ?m'" using wf by (rule wf_addConnection)
  have Q: "\<And>k ids. map_of (userConnections m) k = Some ids \<Longrightarrow> int (length ids) \<le> max_per_user m"
    using q unfolding within_quota_iff[OF index_wf_distinct[OF wu]] by blast
  have q': "within_quota ?m'"
    unfolding within_quota_iff[OF index_wf_distinct[OF wf'[unfolded wf_manager_def, THEN conjunct2, THEN conjunct1]]] o'
  proof (intro allI impI)
    fix k ids
    assume a: "map_of (userConnections ?m') k = Some ids"
    show "int (length ids) \<le> max_per_user m"
    proof (cases "truthy u \<and> k = the u")
      case True
      with False have lt: "int (getUserConnectionCount k m) < max_per_user m" by auto
      show ?thesis
      proof (cases "map_of (userConnections m) k")
        case None
        with a True have "ids = [i]"
          by (auto simp: u' new_conn_def map_of_track)
        with lt None show ?thesis by (simp add: getUserConnectionCount_def)
      next
        case (Some ids0)
        with a True have "ids = set_add i ids0"
          by (auto simp: u' new_conn_def map_of_track)
        with lt Some length_set_add[of i ids0] show ?thesis
          by (simp add: getUserConnectionCount_def)
      qed
    next
      case False
      with a have "map_of (userConnections m) k = Some ids"
        by (auto simp: u' new_conn_def map_of_track split: if_splits)
      then show ?thesis by (rule Q)
    qed
  qed
  show ?thesis
    unfolding index_invariants_def c'
    using index_add[OF dc wu su cu nu fr u'] index_add[OF dc wc sc cc nc fr ch'] q'
    by simp
qed

lemma inv_removeConnection:
  assumes wf: "wf_manager m" and inv: "index_invariants m"
  shows "index_invariants (removeConnection i m)"
proof (cases "map_of (connections m) i")
  case None
  then show ?thesis using inv by (simp add: removeConnection_absent)
next
  case (Some r)
  let ?m' = "removeConnection i m"
  have dc: "distinct (map fst (connections m))" and wu: "index_wf (userConnections m)"
    and wc: "index_wf (channelConnections m)"
    using wf by (simp_all add: wf_manager_def)
  have c': "connections ?m' = AList.delete i (connections m)"
    and u': "userConnections ?m' = (if truthy (userId r) then untrack (the (userId r)) i (userConnections m) else userConnections m)"
    and ch': "channelConnections ?m' = (if truthy (channel r) then untrack (the (channel r)) i (channelConnections m) else channelConnections m)"
    and o': "max_per_user ?m' = max_per_user m"
    by (simp_all add: removeConnection_present[OF Some] max_per_user_def)
  from inv have su: "index_sound userId (connections m) (userConnections m)"
    and sc: "index_sound channel (connections m) (channelConnections m)"
    and cu: "index_complete userId (connections m) (userConnections m)"
    and cc: "index_complete channel (connections m) (channelConnections m)"
    and nu: "index_nonempty (userConnections m)"
    and nc: "index_nonempty (channelConnections m)"
    and q: "within_quota m"
    by (simp_all add: index_invariants_def)
  have wf': "wf_manager ?m'" using wf by (rule wf_removeConnection)
  have Q: "\<And>k ids. map_of (userConnections m) k = Some ids \<Longrightarrow> int (length ids) \<le> max_per_user m"
    using q unfolding within_quota_iff[OF index_wf_distinct[OF wu]] by blast
  have q': "within_quota ?m'"
    unfolding within_quota_iff[OF index_wf_distinct[OF wf'[unfolded wf_manager_def, THEN conjunct2, THEN conjunct1]]] o'
  proof (intro allI impI)
    fix k ids
    assume a: "map_of (userConnections ?m') k = Some ids"
    then have "\<exists>ids0. map_of (userConnections m) k = Some ids0 \<and> length ids \<le> length ids0"
      using length_set_delete[of i]
      by (auto simp: u' map_of_untrack split: if_splits option.splits)
    then obtain ids0 where "map_of (userConnections m) k = Some ids0" "length ids \<le> length ids0"
      by blast
    with Q[of k ids0] show "int (length ids) \<le> max_per_user m" by simp
  qed
  show ?thesis
    unfolding index_invariants_def c'
    using index_remove[OF dc wu su cu nu Some u'] index_remove[OF dc wc sc cc nc Some ch'] q'
    by simp
qed


lemma wf_apply_call: "wf_manager m \<Longrightarrow> wf_manager (apply_call c m)"
  by (cases c) (simp_all add: wf_addConnection wf_removeConnection)

lemma inv_run:
  "no_reuse cs m \<Longrightarrow> wf_manager m \<Longrightarrow> index_invariants m \<Longrightarrow> index_invariants (run cs m)"
proof (induction cs arbitrary: m)
  case Nil
  then show ?case by simp
next
  case (Cons c cs)
  have w: "wf_manager (apply_call c m)" using Cons.prems(2) by (rule wf_apply_call)
  show ?case
  proof (cases c)
    case (Add i sf cf u ch)
    with Cons.prems have "index_invariants (apply_call c m)"
      by (simp add: inv_addConnection)
    with Cons.IH[OF _ w] Cons.prems(1) Add show ?thesis by simp
  next
    case (Remove i)
    with Cons.prems have "index_invariants (apply_call c m)"
      by (simp add: inv_removeConnection)
    with Cons.IH[OF _ w] Cons.prems(1) Remove show ?thesis by simp
  qed
qed

lemma wf_new: "wf_manager (WebSocketManager opts now)"
  by (simp add: wf_manager_def index_wf_def WebSocketManager_def)

lemma inv_new: "index_invariants (WebSocketManager opts now)"
  by (simp add: index_invariants_def index_sound_def index_complete_def index_nonempty_def
      within_quota_def WebSocketManager_def)

lemmas eval_defs = addConnection_def removeConnection_def WebSocketManager_def with_default_def
  getUserConnectionCount_def max_per_user_def track_def untrack_def set_add_def set_delete_def
  default_options_def Let_def

section \<open>The invariants of the indices\<close>

text \<open>
  C1 (amended). For every finite sequence of \<^verbatim>\<open>addConnection\<close> and \<^verbatim>\<open>removeConnection\<close> calls
  on a new manager in which no \<^verbatim>\<open>addConnection\<close> passes an id that is registered at the time
  of the call (rejected admissions leave the state as it is), the resulting state satisfies
  the invariants of the indices: every id in a set of \<open>userConnections\<close> or
  \<open>channelConnections\<close> is a key of \<open>connections\<close> whose record has that user id or channel,
  every registered record with a non-empty user id or channel is in the corresponding set,
  no set is empty, and no user has more than \<^verbatim>\<open>maxConnectionsPerUser\<close> ids.
\<close>

theorem index_invariants_without_reuse:
  "no_reuse cs (WebSocketManager opts now) \<Longrightarrow> index_invariants (run cs (WebSocketManager opts now))"
  by (rule inv_run[OF _ wf_new inv_new])

text \<open>
  A run of five calls without reuse of an id: two connections of one user, one with the empty
  user id, the removal of a registered and of an unknown id.
\<close>

theorem index_invariants_without_reuse_witness:
  "no_reuse [Add ''c1'' returns_normally closes_normally (Some ''u1'') (Some ''x''),
             Add ''c2'' returns_normally closes_normally (Some ''u1'') None,
             Add ''c3'' returns_normally closes_normally (Some []) (Some ''x''),
             Remove ''c1'', Remove ''c9'']
     (WebSocketManager default_options 0)
   \<and> index_invariants
     (run [Add ''c1'' returns_normally closes_normally (Some ''u1'') (Some ''x''),
           Add ''c2'' returns_normally closes_normally (Some ''u1'') None,
           Add ''c3'' returns_normally closes_normally (Some []) (Some ''x''),
           Remove ''c1'', Remove ''c9'']
       (WebSocketManager default_options 0))"
proof -
  have h: "no_reuse [Add ''c1'' returns_normally closes_normally (Some ''u1'') (Some ''x''),
             Add ''c2'' returns_normally closes_normally (Some ''u1'') None,
             Add ''c3'' returns_normally closes_normally (Some []) (Some ''x''),
             Remove ''c1'', Remove ''c9'']
     (WebSocketManager default_options 0)"
    by (simp add: eval_defs)
  from h index_invariants_without_reuse[OF h] show ?thesis by (rule conjI)
qed

text \<open>
  C1 as stated fails: \<^verbatim>\<open>addConnection\<close> has no check for a registered id. Adding \<^verbatim>\<open>a\<close> for
  user \<^verbatim>\<open>u1\<close> and again for user \<^verbatim>\<open>u2\<close> leaves \<^verbatim>\<open>a\<close> in the set of \<^verbatim>\<open>u1\<close> while the record
  under \<^verbatim>\<open>a\<close> belongs to \<^verbatim>\<open>u2\<close>.
\<close>

theorem index_invariants_counterexample:
  "\<not> index_invariants
       (run [Add ''a'' returns_normally closes_normally (Some ''u1'') None,
             Add ''a'' returns_normally closes_normally (Some ''u2'') None]
          (WebSocketManager default_options 0))"
  by (simp add: eval_defs index_invariants_def index_sound_def)

section \<open>The admission quota\<close>

lemma wf_run: "wf_manager m \<Longrightarrow> wf_manager (run cs m)"
  by (induction cs arbitrary: m) (simp_all add: wf_apply_call)

lemma count_after_add:
  assumes "u \<noteq> []" and "int (getUserConnectionCount u m) < max_per_user m"
    and "\<And>ids. map_of (userConnections m) u = Some ids \<Longrightarrow> i \<notin> set ids"
  shows "getUserConnectionCount u (snd (addConnection i sf cf (Some u) ch m))
           = Suc (getUserConnectionCount u m)"
proof -
  have "\<not> (truthy (Some u) \<and> max_per_user m \<le> int (getUserConnectionCount (the (Some u)) m))"
    using assms(2) by simp
  from addConnection_accept[OF this] assms(1,3) show ?thesis
    by (auto simp: getUserConnectionCount_def map_of_track set_add_def split: option.splits)
qed

lemma max_per_user_add: "max_per_user (snd (addConnection i sf cf u ch m)) = max_per_user m"
  by (cases "truthy u \<and> max_per_user m \<le> int (getUserConnectionCount (the u) m)")
     (simp_all add: addConnection_reject addConnection_accept max_per_user_def)

text \<open>
  C7. For a non-empty user id, \<^verbatim>\<open>addConnection\<close> accepts exactly while the size of the user's
  set is below \<^verbatim>\<open>maxConnectionsPerUser\<close>; when it is not, the call fails with the quota error
  and returns the manager unchanged. The call that brings the count to the maximum succeeds
  (the id not being in the user's set before), and the next \<^verbatim>\<open>addConnection\<close> for the same
  user fails with the quota error, mutating nothing.
\<close>

theorem quota_boundary:
  assumes "u \<noteq> []"
  shows "(\<not> isl (fst (addConnection i sf cf (Some u) ch m))
            \<longleftrightarrow> int (getUserConnectionCount u m) < max_per_user m)
       \<and> (\<not> int (getUserConnectionCount u m) < max_per_user m \<longrightarrow>
            addConnection i sf cf (Some u) ch m = (Inl (quota_error (max_per_user m) u), m))
       \<and> (int (getUserConnectionCount u m) + 1 = max_per_user m
            \<and> (\<forall>ids. map_of (userConnections m) u = Some ids \<longrightarrow> i \<notin> set ids) \<longrightarrow>
            (let m' = snd (addConnection i sf cf (Some u) ch m)
             in int (getUserConnectionCount u m') = max_per_user m'
                \<and> addConnection i' sf' cf' (Some u) ch' m'
                    = (Inl (quota_error (max_per_user m') u), m')))"
proof (intro conjI impI)
  show "(\<not> isl (fst (addConnection i sf cf (Some u) ch m)))
          = (int (getUserConnectionCount u m) < max_per_user m)"
  proof (cases "int (getUserConnectionCount u m) < max_per_user m")
    case True
    then have "\<not> (truthy (Some u) \<and> max_per_user m \<le> int (getUserConnectionCount (the (Some u)) m))"
      by simp
    from addConnection_accept[OF this] True show ?thesis by simp
  next
    case False
    with assms show ?thesis by (simp add: addConnection_reject)
  qed
next
  assume "\<not> int (getUserConnectionCount u m) < max_per_user m"
  with assms show "addConnection i sf cf (Some u) ch m = (Inl (quota_error (max_per_user m) u), m)"
    by (simp add: addConnection_reject)
next
  assume a: "int (getUserConnectionCount u m) + 1 = max_per_user m
            \<and> (\<forall>ids. map_of (userConnections m) u = Some ids \<longrightarrow> i \<notin> set ids)"
  let ?m' = "snd (addConnection i sf cf (Some u) ch m)"
  from a have lt: "int (getUserConnectionCount u m) < max_per_user m" by simp
  have c: "getUserConnectionCount u ?m' = Suc (getUserConnectionCount u m)"
    using assms lt a by (intro count_after_add) auto
  have mx: "max_per_user ?m' = max_per_user m" by (rule max_per_user_add)
  have full: "int (getUserConnectionCount u ?m') = max_per_user ?m'"
    using c mx a by simp
  then have "addConnection i' sf' cf' (Some u) ch' ?m' = (Inl (quota_error (max_per_user ?m') u), ?m')"
    using assms by (simp add: addConnection_reject)
  with full show "let m' = ?m' in int (getUserConnectionCount u m') = max_per_user m'
                \<and> addConnection i' sf' cf' (Some u) ch' m'
                    = (Inl (quota_error (max_per_user m') u), m')"
    by (simp add: Let_def)
qed

text \<open>
  With \<^verbatim>\<open>maxConnectionsPerUser = 2\<close>: \<^verbatim>\<open>c1\<close> and \<^verbatim>\<open>c2\<close> of user \<^verbatim>\<open>u1\<close> are accepted, \<^verbatim>\<open>c3\<close> is
  rejected and the manager is the same.
\<close>

theorem quota_boundary_witness:
  "''u1'' \<noteq> []
   \<and> int (getUserConnectionCount ''u1''
        (run [Add ''c1'' returns_normally closes_normally (Some ''u1'') None]
           (WebSocketManager quota_two 0))) + 1
     = max_per_user (run [Add ''c1'' returns_normally closes_normally (Some ''u1'') None]
           (WebSocketManager quota_two 0))
   \<and> \<not> isl (fst (addConnection ''c2'' returns_normally closes_normally (Some ''u1'') None
        (run [Add ''c1'' returns_normally closes_normally (Some ''u1'') None]
           (WebSocketManager quota_two 0))))
   \<and> getUserConnectionCount ''u1''
        (run [Add ''c1'' returns_normally closes_normally (Some ''u1'') None,
              Add ''c2'' returns_normally closes_normally (Some ''u1'') None]
           (WebSocketManager quota_two 0)) = 2
   \<and> addConnection ''c3'' returns_normally closes_normally (Some ''u1'') None
        (run [Add ''c1'' returns_normally closes_normally (Some ''u1'') None,
              Add ''c2'' returns_normally closes_normally (Some ''u1'') None]
           (WebSocketManager quota_two 0))
      = (Inl (ThrowError ''Maximum connections (2) exceeded for user u1''),
         run [Add ''c1'' returns_normally closes_normally (Some ''u1'') None,
              Add ''c2'' returns_normally closes_normally (Some ''u1'') None]
           (WebSocketManager quota_two 0))"
proof -
  let ?m1 = "run [Add ''c1'' returns_normally closes_normally (Some ''u1'') None]
           (WebSocketManager quota_two 0)"
  have u: "''u1'' \<noteq> []" by simp
  have h: "int (getUserConnectionCount ''u1'' ?m1) + 1 = max_per_user ?m1
           \<and> (\<forall>ids. map_of (userConnections ?m1) ''u1'' = Some ids \<longrightarrow> ''c2'' \<notin> set ids)"
    by (simp add: eval_defs quota_two_def)
  have mx: "max_per_user ?m1 = 2"
    by (simp add: eval_defs quota_two_def)
  have r: "run [Add ''c1'' returns_normally closes_normally (Some ''u1'') None,
              Add ''c2'' returns_normally closes_normally (Some ''u1'') None]
           (WebSocketManager quota_two 0)
         = snd (addConnection ''c2'' returns_normally closes_normally (Some ''u1'') None ?m1)"
    by simp
  have q: "quota_error 2 ''u1'' = ThrowError ''Maximum connections (2) exceeded for user u1''"
    by (simp add: quota_error_def int_digits_def nat_digits.simps)
  from quota_boundary[OF u, of "''c2''" returns_normally closes_normally None ?m1
        "''c3''" returns_normally closes_normally None] h mx u
  show ?thesis
    unfolding r by (simp add: Let_def max_per_user_add q)
qed

section \<open>Adding a registered id\<close>

lemma map_of_track_mono:
  assumes "map_of idx k = Some ids"
  shows "\<exists>ids'. map_of (track k' i idx) k = Some ids' \<and> set ids \<subseteq> set ids'"
  using assms by (auto simp: map_of_track set_set_add split: option.splits)

lemma map_of_track_member:
  "\<exists>ids. map_of (track k i idx) k = Some ids \<and> i \<in> set ids"
  by (auto simp: map_of_track set_set_add split: option.splits)

text \<open>
  C2 (amended). \<^verbatim>\<open>addConnection\<close> with an id that is already a key of \<open>connections\<close> does not
  fail for that reason: when the quota check passes, the call returns the new record, which
  replaces the record stored under the id at the same place; the id is added to the set of the
  new record's user and channel when these are non-empty, and no id is dropped from any set
  (the sets of the replaced record keep the id).
\<close>

theorem addConnection_registered_id:
  assumes reg: "map_of (connections m) i = Some old"
    and adm: "\<not> (truthy u \<and> max_per_user m \<le> int (getUserConnectionCount (the u) m))"
  shows "let m' = snd (addConnection i sf cf u ch m)
     in fst (addConnection i sf cf u ch m) = Inr (new_conn i sf cf u ch m)
     \<and> map_of (connections m') = (map_of (connections m))(i \<mapsto> new_conn i sf cf u ch m)
     \<and> map fst (connections m') = map fst (connections m)
     \<and> (\<forall>k ids. map_of (userConnections m) k = Some ids \<longrightarrow>
           (\<exists>ids'. map_of (userConnections m') k = Some ids' \<and> set ids \<subseteq> set ids'))
     \<and> (\<forall>k ids. map_of (channelConnections m) k = Some ids \<longrightarrow>
           (\<exists>ids'. map_of (channelConnections m') k = Some ids' \<and> set ids \<subseteq> set ids'))
     \<and> (truthy u \<longrightarrow> (\<exists>ids. map_of (userConnections m') (the u) = Some ids \<and> i \<in> set ids))
     \<and> (truthy ch \<longrightarrow> (\<exists>ids. map_of (channelConnections m') (the ch) = Some ids \<and> i \<in> set ids))"
proof -
  let ?m' = "snd (addConnection i sf cf u ch m)"
  have r: "fst (addConnection i sf cf u ch m) = Inr (new_conn i sf cf u ch m)"
    by (simp add: addConnection_accept[OF adm])
  have c: "connections ?m' = AList.update i (new_conn i sf cf u ch m) (connections m)"
    and us: "userConnections ?m' = (if truthy u then track (the u) i (userConnections m) else userConnections m)"
    and cs: "channelConnections ?m' = (if truthy ch then track (the ch) i (channelConnections m) else channelConnections m)"
    by (simp_all add: addConnection_accept[OF adm])
  have k: "i \<in> set (map fst (connections m))"
    using reg map_of_Some_key[of "connections m" i old] by simp
  have 1: "map_of (connections ?m') = (map_of (connections m))(i \<mapsto> new_conn i sf cf u ch m)"
    by (simp add: c update_conv')
  have 2: "map fst (connections ?m') = map fst (connections m)"
    using k by (simp add: c update_keys)
  have 3: "\<forall>k ids. map_of (userConnections m) k = Some ids \<longrightarrow>
           (\<exists>ids'. map_of (userConnections ?m') k = Some ids' \<and> set ids \<subseteq> set ids')"
    using map_of_track_mono by (auto simp: us)
  have 4: "\<forall>k ids. map_of (channelConnections m) k = Some ids \<longrightarrow>
           (\<exists>ids'. map_of (channelConnections ?m') k = Some ids' \<and> set ids \<subseteq> set ids')"
    using map_of_track_mono by (auto simp: cs)
  have 5: "truthy u \<longrightarrow> (\<exists>ids. map_of (userConnections ?m') (the u) = Some ids \<and> i \<in> set ids)"
    using map_of_track_member by (simp add: us)
  have 6: "truthy ch \<longrightarrow> (\<exists>ids. map_of (channelConnections ?m') (the ch) = Some ids \<and> i \<in> set ids)"
    using map_of_track_member by (simp add: cs)
  from r 1 2 3 4 5 6 show ?thesis unfolding Let_def by blast
qed

text \<open>
  The id \<^verbatim>\<open>a\<close>, registered for user \<^verbatim>\<open>u1\<close>, is added again for user \<^verbatim>\<open>u2\<close> on channel \<^verbatim>\<open>x\<close>.
\<close>

theorem addConnection_registered_id_witness:
  "map (userId \<circ> snd) (connections (run [Add ''a'' returns_normally closes_normally (Some ''u1'') None]
              (WebSocketManager default_options 0))) = [Some ''u1'']
   \<and> fst (addConnection ''a'' write_fails closes_normally (Some ''u2'') (Some ''x'')
           (run [Add ''a'' returns_normally closes_normally (Some ''u1'') None]
              (WebSocketManager default_options 0)))
         = Inr (new_conn ''a'' write_fails closes_normally (Some ''u2'') (Some ''x'')
                   (run [Add ''a'' returns_normally closes_normally (Some ''u1'') None]
                      (WebSocketManager default_options 0)))
   \<and> map fst (connections (snd (addConnection ''a'' write_fails closes_normally (Some ''u2'') (Some ''x'')
           (run [Add ''a'' returns_normally closes_normally (Some ''u1'') None]
              (WebSocketManager default_options 0))))) = [''a'']"
proof -
  let ?m = "run [Add ''a'' returns_normally closes_normally (Some ''u1'') None]
              (WebSocketManager default_options 0)"
  have reg: "map_of (connections ?m) ''a''
               = Some (new_conn ''a'' returns_normally closes_normally (Some ''u1'') None
                         (WebSocketManager default_options 0))"
    by (simp add: eval_defs new_conn_def)
  have adm: "\<not> (truthy (Some ''u2'')
               \<and> max_per_user ?m \<le> int (getUserConnectionCount (the (Some ''u2'')) ?m))"
    by (simp add: eval_defs)
  have k: "map fst (connections ?m) = [''a'']"
    and u: "map (userId \<circ> snd) (connections ?m) = [Some ''u1'']"
    by (simp_all add: eval_defs)
  from addConnection_registered_id[OF reg adm, of write_fails closes_normally "Some ''x''"] k u
  show ?thesis unfolding Let_def by simp
qed

text \<open>
  C2 as stated fails: the second \<^verbatim>\<open>addConnection\<close> with the id \<^verbatim>\<open>a\<close> returns a record, the
  record under \<^verbatim>\<open>a\<close> now belongs to \<^verbatim>\<open>u2\<close>, and \<^verbatim>\<open>a\<close> is in the sets of both users.
\<close>

theorem duplicate_id_counterexample:
  "\<not> isl (fst (addConnection ''a'' returns_normally closes_normally (Some ''u2'') None
               (run [Add ''a'' returns_normally closes_normally (Some ''u1'') None]
                  (WebSocketManager default_options 0))))
   \<and> map (userId \<circ> snd)
        (connections (run [Add ''a'' returns_normally closes_normally (Some ''u1'') None]
                  (WebSocketManager default_options 0)))
       = [Some ''u1'']
   \<and> map (userId \<circ> snd)
        (connections (snd (addConnection ''a'' returns_normally closes_normally (Some ''u2'') None
               (run [Add ''a'' returns_normally closes_normally (Some ''u1'') None]
                  (WebSocketManager default_options 0)))))
       = [Some ''u2'']
   \<and> userConnections (run [Add ''a'' returns_normally closes_normally (Some ''u1'') None]
                  (WebSocketManager default_options 0))
       = [(''u1'', [''a''])]
   \<and> userConnections (snd (addConnection ''a'' returns_normally closes_normally (Some ''u2'') None
               (run [Add ''a'' returns_normally closes_normally (Some ''u1'') None]
                  (WebSocketManager default_options 0))))
       = [(''u1'', [''a'']), (''u2'', [''a''])]"
  by (simp add: eval_defs)

section \<open>The empty string as user id or channel\<close>

lemma empty_key_absent: "wf_manager m \<Longrightarrow> map_of (userConnections m) [] = None \<and> map_of (channelConnections m) [] = None"
  by (simp add: wf_manager_def index_wf_iff)

text \<open>
  C10. \<^verbatim>\<open>addConnection\<close> with the empty string as user id is never rejected by the quota and
  leaves \<open>userConnections\<close> as it is; with the empty string as channel it leaves
  \<open>channelConnections\<close> as it is. Hence after any sequence of calls on a new manager the
  empty string is no key of an index: its counts are 0, and \<^verbatim>\<open>sendToUser("")\<close> and
  \<^verbatim>\<open>sendToChannel("")\<close> return 0 without calling a transport.
\<close>

theorem empty_string_is_anonymous:
  "\<not> isl (fst (addConnection i sf cf (Some []) ch m))
   \<and> userConnections (snd (addConnection i sf cf (Some []) ch m)) = userConnections m
   \<and> channelConnections (snd (addConnection i sf cf u (Some []) m)) = channelConnections m
   \<and> getUserConnectionCount [] (run cs (WebSocketManager opts now)) = 0
   \<and> getChannelConnectionCount [] (run cs (WebSocketManager opts now)) = 0
   \<and> sendToUser send [] message (run cs (WebSocketManager opts now))
        = (Inr 0, run cs (WebSocketManager opts now))
   \<and> sendToChannel send [] message (run cs (WebSocketManager opts now))
        = (Inr 0, run cs (WebSocketManager opts now))"
proof -
  have a: "\<not> (truthy (Some []) \<and> max_per_user m \<le> int (getUserConnectionCount (the (Some [])) m))"
    by simp
  have 1: "\<not> isl (fst (addConnection i sf cf (Some []) ch m))"
    and 2: "userConnections (snd (addConnection i sf cf (Some []) ch m)) = userConnections m"
    by (simp_all add: addConnection_accept[OF a])
  have 3: "channelConnections (snd (addConnection i sf cf u (Some []) m)) = channelConnections m"
    by (cases "truthy u \<and> max_per_user m \<le> int (getUserConnectionCount (the u) m)")
       (simp_all add: addConnection_reject addConnection_accept)
  have "wf_manager (run cs (WebSocketManager opts now))"
    using wf_new by (rule wf_run)
  from empty_key_absent[OF this]
  have 4: "getUserConnectionCount [] (run cs (WebSocketManager opts now)) = 0"
    and 5: "getChannelConnectionCount [] (run cs (WebSocketManager opts now)) = 0"
    and 6: "sendToUser send [] message (run cs (WebSocketManager opts now))
        = (Inr 0, run cs (WebSocketManager opts now))"
    and 7: "sendToChannel send [] message (run cs (WebSocketManager opts now))
        = (Inr 0, run cs (WebSocketManager opts now))"
    by (simp_all add: getUserConnectionCount_def getChannelConnectionCount_def sendToUser_def
        sendToChannel_def)
  from 1 2 3 4 5 6 7 show ?thesis by blast
qed

text \<open>
  Two connections with the empty user id under \<^verbatim>\<open>maxConnectionsPerUser = 2\<close>: both are
  registered, a third one is admitted, and the count of the empty user id is 0.
\<close>

theorem empty_string_is_anonymous_witness:
  "getUserConnectionCount []
     (run [Add ''c1'' returns_normally closes_normally (Some []) (Some []),
           Add ''c2'' returns_normally closes_normally (Some []) (Some ''x'')]
        (WebSocketManager quota_two 0)) = 0
   \<and> map fst (connections
     (run [Add ''c1'' returns_normally closes_normally (Some []) (Some []),
           Add ''c2'' returns_normally closes_normally (Some []) (Some ''x'')]
        (WebSocketManager quota_two 0))) = [''c1'', ''c2'']
   \<and> \<not> isl (fst (addConnection ''c3'' returns_normally closes_normally (Some []) None
     (run [Add ''c1'' returns_normally closes_normally (Some []) (Some []),
           Add ''c2'' returns_normally closes_normally (Some []) (Some ''x'')]
        (WebSocketManager quota_two 0))))"
proof -
  have "map fst (connections
     (run [Add ''c1'' returns_normally closes_normally (Some []) (Some []),
           Add ''c2'' returns_normally closes_normally (Some []) (Some ''x'')]
        (WebSocketManager quota_two 0))) = [''c1'', ''c2'']"
    by (simp add: eval_defs quota_two_def)
  with empty_string_is_anonymous[where i = "''c3''" and sf = returns_normally
      and cf = closes_normally and ch = None and opts = quota_two and now = 0
      and send = sendMessage and message = "error_frame None" and u = None
      and m = "run [Add ''c1'' returns_normally closes_normally (Some []) (Some []),
           Add ''c2'' returns_normally closes_normally (Some []) (Some ''x'')]
        (WebSocketManager quota_two 0)"
      and cs = "[Add ''c1'' returns_normally closes_normally (Some []) (Some []),
           Add ''c2'' returns_normally closes_normally (Some []) (Some ''x'')]"]
  show ?thesis by blast
qed

section \<open>Closing a record\<close>

lemma removeConnection_trace: "trace (removeConnection i m) = trace m"
  by (cases "map_of (connections m) i") (simp_all add: removeConnection_absent removeConnection_present)

lemma removeConnection_trace_update:
  "removeConnection i (m\<lparr>trace := t\<rparr>) = (removeConnection i m)\<lparr>trace := t\<rparr>"
  by (cases "map_of (connections m) i") (simp_all add: removeConnection_def Let_def)

lemma removeConnection_unregisters: "map_of (connections (removeConnection i m)) i = None"
  by (cases "map_of (connections m) i")
     (simp_all add: removeConnection_absent removeConnection_present delete_conv')

lemma removeConnection_idem: "removeConnection i (removeConnection i m) = removeConnection i m"
  by (rule removeConnection_absent) (rule removeConnection_unregisters)

lemma trace_conn_close:
  "trace (snd (conn_close c code reason m)) = trace m @ [CloseRaw (conn_id c) code reason]"
  by (simp add: conn_close_def Let_def removeConnection_trace split: option.splits)

lemma closeRaw_calls_close_times:
  "closeRaw_calls (conn_id c) (close_times n c code reason m) = closeRaw_calls (conn_id c) m + n"
proof (induction n arbitrary: m)
  case 0
  show ?case by simp
next
  case (Suc n)
  have "closeRaw_calls (conn_id c) (snd (conn_close c code reason m)) = Suc (closeRaw_calls (conn_id c) m)"
    by (simp add: closeRaw_calls_def trace_conn_close)
  with Suc.IH[of "snd (conn_close c code reason m)"] show ?case by simp
qed

lemma conn_close_returns:
  assumes "\<And>l. closeFn c l code reason = None"
  shows "conn_close c code reason m
           = (None, (removeConnection (conn_id c) m)
                      \<lparr>trace := trace m @ [CloseRaw (conn_id c) code reason]\<rparr>)"
  using assms by (simp add: conn_close_def Let_def removeConnection_trace_update)

lemma close_times_returns:
  assumes "\<And>l. closeFn c l code reason = None"
  shows "close_times (Suc n) c code reason m
           = (removeConnection (conn_id c) m)
               \<lparr>trace := trace m @ replicate (Suc n) (CloseRaw (conn_id c) code reason)\<rparr>"
proof (induction n arbitrary: m)
  case 0
  show ?case by (simp add: conn_close_returns[OF assms])
next
  case (Suc n)
  let ?m1 = "(removeConnection (conn_id c) m)\<lparr>trace := trace m @ [CloseRaw (conn_id c) code reason]\<rparr>"
  have "close_times (Suc (Suc n)) c code reason m = close_times (Suc n) c code reason ?m1"
    by (simp add: conn_close_returns[OF assms])
  also have "\<dots> = (removeConnection (conn_id c) ?m1)
               \<lparr>trace := trace ?m1 @ replicate (Suc n) (CloseRaw (conn_id c) code reason)\<rparr>"
    by (rule Suc.IH)
  also have "\<dots> = (removeConnection (conn_id c) m)
               \<lparr>trace := trace m @ replicate (Suc (Suc n)) (CloseRaw (conn_id c) code reason)\<rparr>"
    by (simp add: removeConnection_trace_update removeConnection_idem)
  finally show ?case .
qed

text \<open>
  C6 (amended). Calling \<^verbatim>\<open>close()\<close> of a record \<open>n\<close> times calls \<^verbatim>\<open>closeFn\<close> \<open>n\<close> times, once per
  call. When \<^verbatim>\<open>closeFn\<close> returns, the first call removes the id from the registry and every
  later call leaves the registry as it is: the manager after one or more calls is the manager
  after \<^verbatim>\<open>removeConnection\<close>, with one \<^verbatim>\<open>closeFn\<close> call recorded per \<^verbatim>\<open>close()\<close>.
\<close>

theorem close_invokes_closeRaw_each_time:
  "closeRaw_calls (conn_id c) (close_times n c code reason m) = closeRaw_calls (conn_id c) m + n
   \<and> ((\<forall>l. closeFn c l code reason = None) \<longrightarrow>
        close_times (Suc n) c code reason m
          = (removeConnection (conn_id c) m)
              \<lparr>trace := trace m @ replicate (Suc n) (CloseRaw (conn_id c) code reason)\<rparr>
        \<and> map_of (connections (close_times (Suc n) c code reason m)) (conn_id c) = None)"
proof (intro conjI impI)
  show "closeRaw_calls (conn_id c) (close_times n c code reason m) = closeRaw_calls (conn_id c) m + n"
    by (rule closeRaw_calls_close_times)
next
  assume a: "\<forall>l. closeFn c l code reason = None"
  then show e: "close_times (Suc n) c code reason m
          = (removeConnection (conn_id c) m)
              \<lparr>trace := trace m @ replicate (Suc n) (CloseRaw (conn_id c) code reason)\<rparr>"
    by (intro close_times_returns) simp
  show "map_of (connections (close_times (Suc n) c code reason m)) (conn_id c) = None"
    unfolding e by (simp add: removeConnection_unregisters)
qed

lemmas eval_defs2 = conn_close_def new_conn_def closes_normally_def returns_normally_def
  write_fails_def closeRaw_calls_def

text \<open>
  Three calls of \<^verbatim>\<open>close(1000)\<close> on the record of \<^verbatim>\<open>c1\<close>: three calls of \<^verbatim>\<open>closeFn\<close>, and \<^verbatim>\<open>c1\<close>
  is no longer registered.
\<close>

theorem close_invokes_closeRaw_each_time_witness:
  "closeRaw_calls ''c1''
     (close_times 3 (new_conn ''c1'' returns_normally closes_normally (Some ''u1'') None
                       (WebSocketManager default_options 0)) (Some 1000) None
        (run [Add ''c1'' returns_normally closes_normally (Some ''u1'') None]
           (WebSocketManager default_options 0))) = 3
   \<and> map fst (connections
        (run [Add ''c1'' returns_normally closes_normally (Some ''u1'') None]
           (WebSocketManager default_options 0))) = [''c1'']
   \<and> map_of (connections
     (close_times 3 (new_conn ''c1'' returns_normally closes_normally (Some ''u1'') None
                       (WebSocketManager default_options 0)) (Some 1000) None
        (run [Add ''c1'' returns_normally closes_normally (Some ''u1'') None]
           (WebSocketManager default_options 0)))) ''c1'' = None"
proof -
  let ?c = "new_conn ''c1'' returns_normally closes_normally (Some ''u1'') None
                       (WebSocketManager default_options 0)"
  let ?m = "run [Add ''c1'' returns_normally closes_normally (Some ''u1'') None]
           (WebSocketManager default_options 0)"
  have h: "\<forall>l. closeFn ?c l (Some 1000) None = None"
    by (simp add: new_conn_def closes_normally_def)
  have i: "conn_id ?c = ''c1''" by (simp add: new_conn_def)
  have z: "closeRaw_calls ''c1'' ?m = 0"
    and k: "map fst (connections ?m) = [''c1'']"
    by (simp_all add: eval_defs closeRaw_calls_def)
  note t3 = close_invokes_closeRaw_each_time[of ?c 3 "Some 1000" None ?m, THEN conjunct1]
  note t2 = close_invokes_closeRaw_each_time[of ?c 2 "Some 1000" None ?m, THEN conjunct2,
      THEN mp, OF h, THEN conjunct2]
  have a: "closeRaw_calls ''c1'' (close_times 3 ?c (Some 1000) None ?m) = 3"
    using t3 z unfolding i by (simp del: run.simps)
  have b: "map_of (connections (close_times 3 ?c (Some 1000) None ?m)) ''c1'' = None"
    using t2 unfolding i by (simp del: run.simps close_times.simps)
  from a k b show ?thesis by blast
qed

text \<open>
  C6 as stated fails: the record has no flag that remembers a first \<^verbatim>\<open>close()\<close>. Two calls
  of \<^verbatim>\<open>close()\<close> on the record returned by \<^verbatim>\<open>addConnection\<close> call \<^verbatim>\<open>closeFn\<close> twice.
\<close>

theorem close_once_counterexample:
  "fst (addConnection ''c1'' returns_normally closes_normally None None
          (WebSocketManager default_options 0))
     = Inr (new_conn ''c1'' returns_normally closes_normally None None
              (WebSocketManager default_options 0))
   \<and> trace (close_times 2 (new_conn ''c1'' returns_normally closes_normally None None
                             (WebSocketManager default_options 0)) None None
        (snd (addConnection ''c1'' returns_normally closes_normally None None
                (WebSocketManager default_options 0))))
     = [CloseRaw ''c1'' None None, CloseRaw ''c1'' None None]"
  by (simp add: eval_defs eval_defs2 numeral_2_eq_2)

section \<open>A record after its removal\<close>

lemma addConnection_result:
  assumes "fst (addConnection i sf cf u ch m0) = Inr c"
  shows "c = new_conn i sf cf u ch m0"
proof (cases "truthy u \<and> max_per_user m0 \<le> int (getUserConnectionCount (the u) m0)")
  case True
  with assms show ?thesis by (simp add: addConnection_reject)
next
  case False
  from assms show ?thesis by (simp add: addConnection_accept[OF False])
qed

lemma removeConnection_clock: "clock (removeConnection i m) = clock m"
  by (cases "map_of (connections m) i") (simp_all add: removeConnection_absent removeConnection_present)

lemma call_sendFn_removeConnection:
  "call_sendFn c data (removeConnection i m)
     = (fst (call_sendFn c data m), removeConnection i (snd (call_sendFn c data m)))"
  by (simp add: call_sendFn_def removeConnection_trace removeConnection_trace_update)

text \<open>
  C9. Let \<open>c\<close> be the record returned by \<^verbatim>\<open>addConnection\<close>. After \<^verbatim>\<open>removeConnection\<close> of its id,
  in whatever state \<open>m\<close> of the manager, \<^verbatim>\<open>c.send(message)\<close> still encodes the message and calls
  the captured \<^verbatim>\<open>sendFn\<close> with it, exactly as it does before the removal (the two calls
  commute); the same holds for an SSE record and after the record's own \<^verbatim>\<open>close()\<close>, and
  \<^verbatim>\<open>c.close()\<close> still calls the captured \<^verbatim>\<open>closeFn\<close>. The removal changes the maps only.
\<close>

theorem send_after_removal:
  assumes "fst (addConnection i sf cf u ch m0) = Inr c"
  shows "sendMessage c message (removeConnection i m)
           = (sf (trace m) (JSON_stringify (ws_payload message (clock m))),
              (removeConnection i m)
                \<lparr>trace := trace m @ [SendRaw i (JSON_stringify (ws_payload message (clock m)))]\<rparr>)
       \<and> sendMessage c message (removeConnection i m)
           = (fst (sendMessage c message m), removeConnection i (snd (sendMessage c message m)))
       \<and> sendEvent c event (removeConnection i m)
           = (sf (trace m) (sse_message event),
              (removeConnection i m) \<lparr>trace := trace m @ [SendRaw i (sse_message event)]\<rparr>)
       \<and> sendEvent c event (removeConnection i m)
           = (fst (sendEvent c event m), removeConnection i (snd (sendEvent c event m)))
       \<and> fst (sendMessage c message (snd (conn_close c code reason m)))
           = sf (trace m @ [CloseRaw i code reason]) (JSON_stringify (ws_payload message (clock m)))
       \<and> trace (snd (sendMessage c message (snd (conn_close c code reason m))))
           = trace m @ [CloseRaw i code reason,
                        SendRaw i (JSON_stringify (ws_payload message (clock m)))]
       \<and> fst (conn_close c code reason (removeConnection i m)) = cf (trace m) code reason
       \<and> trace (snd (conn_close c code reason (removeConnection i m)))
           = trace m @ [CloseRaw i code reason]"
proof -
  have c: "c = new_conn i sf cf u ch m0" using assms by (rule addConnection_result)
  then have f: "conn_id c = i" "sendFn c = sf" "closeFn c = cf"
    by (simp_all add: new_conn_def)
  have 1: "sendMessage c message (removeConnection i m)
           = (sf (trace m) (JSON_stringify (ws_payload message (clock m))),
              (removeConnection i m)
                \<lparr>trace := trace m @ [SendRaw i (JSON_stringify (ws_payload message (clock m)))]\<rparr>)"
    by (simp add: sendMessage_def call_sendFn_def f removeConnection_trace removeConnection_clock)
  have 2: "sendMessage c message (removeConnection i m)
           = (fst (sendMessage c message m), removeConnection i (snd (sendMessage c message m)))"
    by (simp add: sendMessage_def call_sendFn_removeConnection removeConnection_clock)
  have 3: "sendEvent c event (removeConnection i m)
           = (sf (trace m) (sse_message event),
              (removeConnection i m) \<lparr>trace := trace m @ [SendRaw i (sse_message event)]\<rparr>)"
    by (simp add: sendEvent_def call_sendFn_def f removeConnection_trace)
  have 4: "sendEvent c event (removeConnection i m)
           = (fst (sendEvent c event m), removeConnection i (snd (sendEvent c event m)))"
    by (simp add: sendEvent_def call_sendFn_removeConnection)
  have k: "clock (snd (conn_close c code reason m)) = clock m"
    by (simp add: conn_close_def Let_def removeConnection_clock split: option.splits)
  have t: "trace (snd (conn_close c code reason m)) = trace m @ [CloseRaw i code reason]"
    by (simp add: trace_conn_close f)
  have 5: "fst (sendMessage c message (snd (conn_close c code reason m)))
           = sf (trace m @ [CloseRaw i code reason]) (JSON_stringify (ws_payload message (clock m)))"
    by (simp add: sendMessage_def call_sendFn_def f k t)
  have 6: "trace (snd (sendMessage c message (snd (conn_close c code reason m))))
           = trace m @ [CloseRaw i code reason,
                        SendRaw i (JSON_stringify (ws_payload message (clock m)))]"
    by (simp add: sendMessage_def call_sendFn_def f k t)
  have 7: "fst (conn_close c code reason (removeConnection i m)) = cf (trace m) code reason"
    by (simp add: conn_close_def Let_def f removeConnection_trace split: option.splits)
  have 8: "trace (snd (conn_close c code reason (removeConnection i m)))
           = trace m @ [CloseRaw i code reason]"
    by (simp add: trace_conn_close f removeConnection_trace)
  from 1 2 3 4 5 6 7 8 show ?thesis by blast
qed

text \<open>
  The record of \<^verbatim>\<open>c1\<close> is removed from a new manager and then used for a send: the frame is
  written to its transport, and \<^verbatim>\<open>c1\<close> is not registered.
\<close>

theorem send_after_removal_witness:
  \<open>fst (addConnection ''c1'' returns_normally closes_normally (Some ''u1'') None
          (WebSocketManager default_options 7))
     = Inr (new_conn ''c1'' returns_normally closes_normally (Some ''u1'') None
              (WebSocketManager default_options 7))
   \<and> map_of (connections (removeConnection ''c1''
         (run [Add ''c1'' returns_normally closes_normally (Some ''u1'') None]
            (WebSocketManager default_options 7)))) ''c1'' = None
   \<and> trace (snd (sendMessage
         (new_conn ''c1'' returns_normally closes_normally (Some ''u1'') None
              (WebSocketManager default_options 7))
         hello_message
         (removeConnection ''c1''
           (run [Add ''c1'' returns_normally closes_normally (Some ''u1'') None]
              (WebSocketManager default_options 7)))))
     = [SendRaw ''c1'' ''{"type":"hello","payload":1,"timestamp":7}'']\<close>
proof -
  let ?init = "WebSocketManager default_options 7"
  let ?c = "new_conn ''c1'' returns_normally closes_normally (Some ''u1'') None ?init"
  let ?m = "run [Add ''c1'' returns_normally closes_normally (Some ''u1'') None] ?init"
  have h: "fst (addConnection ''c1'' returns_normally closes_normally (Some ''u1'') None ?init) = Inr ?c"
    by (simp add: eval_defs new_conn_def)
  have t: "trace ?m = []" and k: "clock ?m = 7"
    by (simp_all add: eval_defs)
  have e: \<open>JSON_stringify (ws_payload hello_message 7) = ''{"type":"hello","payload":1,"timestamp":7}''\<close>
    by (simp add: hello_message_def ws_payload_def quote_def escape_char_def int_digits_def
        nat_digits.simps)
  have u: "map_of (connections (removeConnection ''c1'' ?m)) ''c1'' = None"
    by (rule removeConnection_unregisters)
  from send_after_removal[OF h, of hello_message ?m, THEN conjunct1]
  have r: \<open>trace (snd (sendMessage ?c hello_message (removeConnection ''c1'' ?m)))
          = [SendRaw ''c1'' ''{"type":"hello","payload":1,"timestamp":7}'']\<close>
    unfolding t k e by (simp del: run.simps)
  show ?thesis by (rule conjI[OF h conjI[OF u r]])
qed

section \<open>The SSE frame\<close>

text \<open>
  C8 (amended). For every SSE event, \<^verbatim>\<open>sendEvent\<close> hands to the transport exactly the
  concatenation, in this order, of \<^verbatim>\<open>id: <id>\n\<close> when the id is a non-empty string,
  \<^verbatim>\<open>event: <event>\n\<close> when the event name is a non-empty string, \<^verbatim>\<open>data: <data>\n\<close>, and
  \<^verbatim>\<open>retry: <ms>\n\<close> when retry is a number other than 0, ended by one blank line; \<^verbatim>\<open><data>\<close> is
  the string itself when data is a string and its \<^verbatim>\<open>JSON.stringify\<close> text otherwise. That is
  the frame of the specification for the event without its empty-string and zero fields, and
  for the event itself when it has none. The data line is in every frame.
\<close>

theorem sse_frame_of_truthy_fields:
  "sse_message event = sse_frame_spec (drop_falsy event)
   \<and> (ev_id event \<noteq> Some [] \<and> ev_event event \<noteq> Some [] \<and> ev_retry event \<noteq> Some 0
        \<longrightarrow> sse_message event = sse_frame_spec event)
   \<and> (\<exists>before after.
         sse_message event
           = before @ ''data: '' @ data_text (ev_data event) @ [CHR 0x0A] @ after @ [CHR 0x0A])
   \<and> sendEvent c event m
       = (sendFn c (trace m) (sse_frame_spec (drop_falsy event)),
          m \<lparr>trace := trace m @ [SendRaw (conn_id c) (sse_frame_spec (drop_falsy event))]\<rparr>)"
proof -
  have 1: "sse_message event = sse_frame_spec (drop_falsy event)"
    by (cases "ev_id event"; cases "ev_event event"; cases "ev_retry event")
       (simp_all add: sse_message_def sse_frame_spec_def drop_falsy_def)
  have 2: "ev_id event \<noteq> Some [] \<and> ev_event event \<noteq> Some [] \<and> ev_retry event \<noteq> Some 0
        \<longrightarrow> sse_message event = sse_frame_spec event"
    by (cases "ev_id event"; cases "ev_event event"; cases "ev_retry event")
       (simp_all add: sse_message_def sse_frame_spec_def)
  have "sse_frame_spec (drop_falsy event)
          = (case ev_id (drop_falsy event) of None \<Rightarrow> [] | Some i \<Rightarrow> ''id: '' @ i @ [CHR 0x0A])
            @ (case ev_event (drop_falsy event) of None \<Rightarrow> [] | Some e \<Rightarrow> ''event: '' @ e @ [CHR 0x0A])
            @ ''data: '' @ data_text (ev_data event) @ [CHR 0x0A]
            @ (case ev_retry (drop_falsy event) of None \<Rightarrow> []
               | Some r \<Rightarrow> ''retry: '' @ int_digits r @ [CHR 0x0A])
            @ [CHR 0x0A]"
    by (simp add: sse_frame_spec_def drop_falsy_def)
  then have 3: "\<exists>before after.
         sse_message event
           = before @ ''data: '' @ data_text (ev_data event) @ [CHR 0x0A] @ after @ [CHR 0x0A]"
    unfolding 1 by (metis append.assoc)
  have 4: "sendEvent c event m
       = (sendFn c (trace m) (sse_frame_spec (drop_falsy event)),
          m \<lparr>trace := trace m @ [SendRaw (conn_id c) (sse_frame_spec (drop_falsy event))]\<rparr>)"
    by (simp add: sendEvent_def call_sendFn_def 1)
  from 1 2 3 4 show ?thesis by blast
qed

text \<open>An event with all four fields set and truthy, and its frame.\<close>

theorem sse_frame_of_truthy_fields_witness:
  \<open>(ev_id progress_event \<noteq> Some [] \<and> ev_event progress_event \<noteq> Some []
      \<and> ev_retry progress_event \<noteq> Some 0)
   \<and> sse_message progress_event = sse_frame_spec progress_event
   \<and> sse_frame_spec progress_event
      = ''id: 42'' @ [CHR 0x0A] @ ''event: progress'' @ [CHR 0x0A] @ ''data: {"done":3}'' @ [CHR 0x0A]
        @ ''retry: 1500'' @ [CHR 0x0A] @ [CHR 0x0A]\<close>
proof -
  have h: "ev_id progress_event \<noteq> Some [] \<and> ev_event progress_event \<noteq> Some []
      \<and> ev_retry progress_event \<noteq> Some 0"
    by (simp add: progress_event_def)
  have e: \<open>sse_frame_spec progress_event
      = ''id: 42'' @ [CHR 0x0A] @ ''event: progress'' @ [CHR 0x0A] @ ''data: {"done":3}'' @ [CHR 0x0A]
        @ ''retry: 1500'' @ [CHR 0x0A] @ [CHR 0x0A]\<close>
    by (simp add: sse_frame_spec_def progress_event_def data_text_def quote_def escape_char_def
        int_digits_def nat_digits.simps)
  from sse_frame_of_truthy_fields[of progress_event, THEN conjunct2, THEN conjunct1, THEN mp, OF h]
  have s: "sse_message progress_event = sse_frame_spec progress_event" .
  show ?thesis by (rule conjI[OF h conjI[OF s e]])
qed

text \<open>
  C8 as stated fails: for the event \<^verbatim>\<open>{ data: "x", retry: 0 }\<close> the field \<^verbatim>\<open>retry\<close> is
  present, and the frame has no \<^verbatim>\<open>retry\<close> line, because \<^verbatim>\<open>if (event.retry)\<close> is false for 0.
\<close>

theorem sse_retry_zero_counterexample:
  "ev_retry retry_zero = Some 0
   \<and> sse_frame_spec retry_zero = ''data: x'' @ [CHR 0x0A] @ ''retry: 0'' @ [CHR 0x0A] @ [CHR 0x0A]
   \<and> sse_message retry_zero = ''data: x'' @ [CHR 0x0A] @ [CHR 0x0A]
   \<and> sse_message retry_zero \<noteq> sse_frame_spec retry_zero"
  by (simp add: retry_zero_def sse_frame_spec_def sse_message_def data_text_def int_digits_def
      nat_digits.simps)

section \<open>Oversized frames\<close>

lemma error_payload:
  "ws_payload (error_frame (Some e)) now
     = JObj [(''type'', JStr ''error''), (''payload'', JObj [(''error'', JStr e)]),
             (''timestamp'', JNum (int now))]"
  by (simp add: ws_payload_def error_frame_def)

lemma sendMessage_error:
  "sendMessage c (error_frame (Some e)) m
     = (sendFn c (trace m)
          (JSON_stringify (JObj [(''type'', JStr ''error''), (''payload'', JObj [(''error'', JStr e)]),
                                 (''timestamp'', JNum (int (clock m)))])),
        m \<lparr>trace := trace m @ [SendRaw (conn_id c)
          (JSON_stringify (JObj [(''type'', JStr ''error''), (''payload'', JObj [(''error'', JStr e)]),
                                 (''timestamp'', JNum (int (clock m)))]))]\<rparr>)"
  by (simp only: sendMessage_def call_sendFn_def error_payload)

lemma handleMessage_registered:
  assumes "map_of (connections m) i = Some c"
  shows "handleMessage parse handlers i raw m
     = (case try_block parse handlers c raw m of
          (None, m') \<Rightarrow> (None, m')
        | (Some err, m') \<Rightarrow> catch_block c err m')"
  using assms by (simp add: handleMessage_def)

lemma handleMessage_parse_error:
  assumes "map_of (connections m) i = Some c" and "parse raw = Inl e"
  shows "handleMessage parse handlers i raw m = sendMessage c (error_frame (Some e)) m"
  using assms by (simp add: handleMessage_def try_block_def catch_block_def)

lemma handleMessage_no_type:
  assumes "map_of (connections m) i = Some c" and "parse raw = Inr msg"
    and "type_of_message msg = Inr ty" and "\<not> js_truthy ty"
  shows "handleMessage parse handlers i raw m
           = sendMessage c (error_frame (Some ''Message type is required'')) m"
  using assms by (simp add: handleMessage_def try_block_def catch_block_def)

lemma handleMessage_too_large:
  assumes "map_of (connections m) i = Some c" and "parse raw = Inr msg"
    and "type_of_message msg = Inr ty" and "js_truthy ty"
    and "max_message_size m < int (length raw)"
  shows "handleMessage parse handlers i raw m
           = sendMessage c (error_frame (Some ''Message size exceeds maximum allowed size'')) m"
  using assms by (simp add: handleMessage_def try_block_def catch_block_def)

lemma handleMessage_dispatch:
  assumes "map_of (connections m) i = Some c" and "parse raw = Inr msg"
    and "type_of_message msg = Inr ty" and "js_truthy ty"
    and "int (length raw) \<le> max_message_size m"
    and "find_handler handlers (the ty) = Some h"
  shows "handleMessage parse handlers i raw m
           = (case h c msg m of (None, m') \<Rightarrow> (None, m') | (Some err, m') \<Rightarrow> catch_block c err m')"
  using assms by (simp add: handleMessage_def try_block_def)

lemma handleMessage_null:
  assumes "map_of (connections m) i = Some c" and "parse raw = Inr JNull"
  shows "handleMessage parse handlers i raw m
           = sendMessage c (error_frame (Some ''Cannot read properties of null (reading 'type')'')) m"
  using assms by (simp add: handleMessage_def try_block_def catch_block_def type_of_message_def)

lemma type_of_message_value: "msg \<noteq> JNull \<Longrightarrow> \<exists>ty. type_of_message msg = Inr ty"
  by (cases msg) (simp_all add: type_of_message_def)

text \<open>
  C5 (amended). \<^verbatim>\<open>handleMessage\<close> parses the frame and reads its type before it checks the
  size. Take a registered connection and a frame of single-byte characters, so that
  \<^verbatim>\<open>rawMessage.length\<close> is its byte length. When the byte length exceeds \<^verbatim>\<open>maxMessageSize\<close>:
  if the frame parses to a value with a truthy \<^verbatim>\<open>type\<close>, the error frame
  \<^verbatim>\<open>{type:"error", payload:{error:"Message size exceeds maximum allowed size"}}\<close> is sent on that
  connection; if the frame does not parse, the error frame carries the parser's message; if
  it parses to \<^verbatim>\<open>null\<close>, the error frame carries the message of the \<^verbatim>\<open>TypeError\<close> raised by
  reading \<^verbatim>\<open>type\<close> of \<^verbatim>\<open>null\<close>; if it parses to another value without a truthy \<^verbatim>\<open>type\<close>, the
  error frame carries \<^verbatim>\<open>Message type is required\<close>. In each case no handler runs (the outcome
  is the one with no handler registered). A frame whose byte length is at most
  \<^verbatim>\<open>maxMessageSize\<close> is not rejected for size: its handler is called.
\<close>

theorem oversized_frame:
  assumes "map_of (connections m) i = Some c" and "byte_length raw = length raw"
  shows "(max_message_size m < int (byte_length raw) \<and> parse raw = Inr msg
            \<and> type_of_message msg = Inr ty \<and> js_truthy ty \<longrightarrow>
          handleMessage parse handlers i raw m
            = (sendFn c (trace m)
                 (JSON_stringify (JObj [(''type'', JStr ''error''),
                    (''payload'', JObj [(''error'', JStr ''Message size exceeds maximum allowed size'')]),
                    (''timestamp'', JNum (int (clock m)))])),
               m \<lparr>trace := trace m @ [SendRaw (conn_id c)
                 (JSON_stringify (JObj [(''type'', JStr ''error''),
                    (''payload'', JObj [(''error'', JStr ''Message size exceeds maximum allowed size'')]),
                    (''timestamp'', JNum (int (clock m)))]))]\<rparr>))
       \<and> (max_message_size m < int (byte_length raw) \<and> parse raw = Inl e \<longrightarrow>
          handleMessage parse handlers i raw m = sendMessage c (error_frame (Some e)) m)
       \<and> (max_message_size m < int (byte_length raw) \<and> parse raw = Inr JNull \<longrightarrow>
          handleMessage parse handlers i raw m
            = sendMessage c
                (error_frame (Some ''Cannot read properties of null (reading 'type')'')) m)
       \<and> (max_message_size m < int (byte_length raw) \<and> parse raw = Inr msg \<and> msg \<noteq> JNull
            \<and> type_of_message msg = Inr ty \<and> \<not> js_truthy ty \<longrightarrow>
          handleMessage parse handlers i raw m
            = sendMessage c (error_frame (Some ''Message type is required'')) m)
       \<and> (msg \<noteq> JNull \<longrightarrow> (\<exists>ty. type_of_message msg = Inr ty))
       \<and> (max_message_size m < int (byte_length raw) \<longrightarrow>
          handleMessage parse handlers i raw m = handleMessage parse [] i raw m)
       \<and> (int (byte_length raw) \<le> max_message_size m \<and> parse raw = Inr msg
            \<and> type_of_message msg = Inr ty \<and> js_truthy ty
            \<and> find_handler handlers (the ty) = Some h \<longrightarrow>
          handleMessage parse handlers i raw m
            = (case h c msg m of
                 (None, m') \<Rightarrow> (None, m')
               | (Some err, m') \<Rightarrow> catch_block c err m'))"
proof (intro conjI impI)
  assume "max_message_size m < int (byte_length raw) \<and> parse raw = Inr msg
            \<and> type_of_message msg = Inr ty \<and> js_truthy ty"
  then show "handleMessage parse handlers i raw m
            = (sendFn c (trace m)
                 (JSON_stringify (JObj [(''type'', JStr ''error''),
                    (''payload'', JObj [(''error'', JStr ''Message size exceeds maximum allowed size'')]),
                    (''timestamp'', JNum (int (clock m)))])),
               m \<lparr>trace := trace m @ [SendRaw (conn_id c)
                 (JSON_stringify (JObj [(''type'', JStr ''error''),
                    (''payload'', JObj [(''error'', JStr ''Message size exceeds maximum allowed size'')]),
                    (''timestamp'', JNum (int (clock m)))]))]\<rparr>)"
    using handleMessage_too_large[OF assms(1)] assms(2) by (simp only: sendMessage_error)
next
  assume "max_message_size m < int (byte_length raw) \<and> parse raw = Inl e"
  then show "handleMessage parse handlers i raw m = sendMessage c (error_frame (Some e)) m"
    using handleMessage_parse_error[OF assms(1)] by simp
next
  assume "max_message_size m < int (byte_length raw) \<and> parse raw = Inr JNull"
  then show "handleMessage parse handlers i raw m
            = sendMessage c
                (error_frame (Some ''Cannot read properties of null (reading 'type')'')) m"
    using handleMessage_null[OF assms(1)] by simp
next
  assume "max_message_size m < int (byte_length raw) \<and> parse raw = Inr msg \<and> msg \<noteq> JNull
            \<and> type_of_message msg = Inr ty \<and> \<not> js_truthy ty"
  then show "handleMessage parse handlers i raw m
            = sendMessage c (error_frame (Some ''Message type is required'')) m"
    using handleMessage_no_type[OF assms(1)] by simp
next
  assume "msg \<noteq> JNull"
  then show "\<exists>ty. type_of_message msg = Inr ty" by (rule type_of_message_value)
next
  assume "max_message_size m < int (byte_length raw)"
  then show "handleMessage parse handlers i raw m = handleMessage parse [] i raw m"
    using assms
    by (simp add: handleMessage_def try_block_def split: sum.splits)
next
  assume "int (byte_length raw) \<le> max_message_size m \<and> parse raw = Inr msg
            \<and> type_of_message msg = Inr ty \<and> js_truthy ty
            \<and> find_handler handlers (the ty) = Some h"
  then show "handleMessage parse handlers i raw m
            = (case h c msg m of
                 (None, m') \<Rightarrow> (None, m')
               | (Some err, m') \<Rightarrow> catch_block c err m')"
    using handleMessage_dispatch[OF assms(1)] assms(2) by simp
qed

lemmas eval_defs3 = handleMessage_def try_block_def catch_block_def type_of_message_def
  js_truthy_def find_handler_def sendMessage_def call_sendFn_def error_frame_def ws_payload_def
  quote_def escape_char_def int_digits_def nat_digits.simps max_message_size_def frame_limit_def
  failing_handler_def returns_normally_def write_fails_def JSON_parse_def expect_def literal_def

lemma parse_boom: \<open>JSON_parse ''{"type":"boom"}'' = Inr (JObj [(''type'', JStr ''boom'')])\<close>
  by (simp add: JSON_parse_def expect_def)

text \<open>
  The frame \<^verbatim>\<open>{"type":"boom"}\<close> has 15 characters and 15 bytes. With \<^verbatim>\<open>maxMessageSize = 14\<close> it
  is answered by the size error and the handler of \<^verbatim>\<open>boom\<close> is not called; with
  \<^verbatim>\<open>maxMessageSize = 15\<close> the handler is called (it fails, and its message is sent). The frame
  \<^verbatim>\<open>null\<close> of 4 bytes, with \<^verbatim>\<open>maxMessageSize = 1\<close>, is answered by the \<^verbatim>\<open>TypeError\<close>'s message.
\<close>

theorem oversized_frame_witness:
  \<open>byte_length ''{"type":"boom"}'' = 15 \<and> length ''{"type":"boom"}'' = 15
   \<and> trace (snd (handleMessage JSON_parse [(''boom'', failing_handler)] ''c1'' ''{"type":"boom"}''
         (run [Add ''c1'' returns_normally closes_normally None None]
            (WebSocketManager (frame_limit 14) 0))))
     = [SendRaw ''c1''
         ''{"type":"error","payload":{"error":"Message size exceeds maximum allowed size"},"timestamp":0}'']
   \<and> trace (snd (handleMessage JSON_parse [(''boom'', failing_handler)] ''c1'' ''{"type":"boom"}''
         (run [Add ''c1'' returns_normally closes_normally None None]
            (WebSocketManager (frame_limit 15) 0))))
     = [SendRaw ''c1'' ''{"type":"error","payload":{"error":"kaput"},"timestamp":0}'']
   \<and> trace (snd (handleMessage JSON_parse [(''boom'', failing_handler)] ''c1'' ''null''
         (run [Add ''c1'' returns_normally closes_normally None None]
            (WebSocketManager (frame_limit 1) 0))))
     = [SendRaw ''c1''
         ''{"type":"error","payload":{"error":"Cannot read properties of null (reading 'type')"},"timestamp":0}'']\<close>
proof -
  let ?c = "new_conn ''c1'' returns_normally closes_normally None None"
  let ?small = "run [Add ''c1'' returns_normally closes_normally None None]
            (WebSocketManager (frame_limit 14) 0)"
  let ?large = "run [Add ''c1'' returns_normally closes_normally None None]
            (WebSocketManager (frame_limit 15) 0)"
  let ?tiny = "run [Add ''c1'' returns_normally closes_normally None None]
            (WebSocketManager (frame_limit 1) 0)"
  let ?raw = \<open>''{"type":"boom"}''\<close>
  let ?msg = "JObj [(''type'', JStr ''boom'')]"
  have bl: "byte_length ?raw = 15" and n: "length ?raw = 15"
    by (simp_all add: byte_length_def)
  have asc: "byte_length ?raw = length ?raw" unfolding bl n ..
  have asc0: "byte_length ''null'' = length ''null''" by (simp add: byte_length_def)
  have rs: "map_of (connections ?small) ''c1'' = Some (?c (WebSocketManager (frame_limit 14) 0))"
    and rl: "map_of (connections ?large) ''c1'' = Some (?c (WebSocketManager (frame_limit 15) 0))"
    and rt: "map_of (connections ?tiny) ''c1'' = Some (?c (WebSocketManager (frame_limit 1) 0))"
    by (simp_all add: eval_defs new_conn_def)
  have hs: "max_message_size ?small < int (byte_length ?raw) \<and> JSON_parse ?raw = Inr ?msg
            \<and> type_of_message ?msg = Inr (Some (JStr ''boom'')) \<and> js_truthy (Some (JStr ''boom''))"
    unfolding bl
    by (simp add: parse_boom eval_defs max_message_size_def frame_limit_def type_of_message_def
        js_truthy_def)
  have hl: "int (byte_length ?raw) \<le> max_message_size ?large \<and> JSON_parse ?raw = Inr ?msg
            \<and> type_of_message ?msg = Inr (Some (JStr ''boom'')) \<and> js_truthy (Some (JStr ''boom''))
            \<and> find_handler [(''boom'', failing_handler)] (the (Some (JStr ''boom'')))
                = Some failing_handler"
    unfolding bl
    by (simp add: parse_boom eval_defs max_message_size_def frame_limit_def type_of_message_def
        js_truthy_def find_handler_def)
  have ht: "max_message_size ?tiny < int (byte_length ''null'') \<and> JSON_parse ''null'' = Inr JNull"
    by (simp add: byte_length_def eval_defs max_message_size_def frame_limit_def JSON_parse_def
        literal_def)
  have ts: "trace ?small = []" "clock ?small = 0" and tl: "trace ?large = []" "clock ?large = 0"
    and tt: "trace ?tiny = []" "clock ?tiny = 0"
    by (simp_all add: eval_defs)
  have i: "\<And>m. conn_id (?c m) = ''c1''" "\<And>m. sendFn (?c m) = returns_normally"
    by (simp_all add: new_conn_def)
  from oversized_frame[where parse = JSON_parse and raw = ?raw and msg = ?msg
      and ty = "Some (JStr ''boom'')" and handlers = "[(''boom'', failing_handler)]",
      OF rs asc, THEN conjunct1, THEN mp, OF hs]
  have a: \<open>trace (snd (handleMessage JSON_parse [(''boom'', failing_handler)] ''c1'' ?raw ?small))
     = [SendRaw ''c1''
         ''{"type":"error","payload":{"error":"Message size exceeds maximum allowed size"},"timestamp":0}'']\<close>
    unfolding ts i by (simp add: quote_def escape_char_def int_digits_def nat_digits.simps del: run.simps)
  from oversized_frame[where parse = JSON_parse and raw = ?raw and msg = ?msg
      and ty = "Some (JStr ''boom'')" and handlers = "[(''boom'', failing_handler)]"
      and h = failing_handler,
      OF rl asc, THEN conjunct2, THEN conjunct2, THEN conjunct2, THEN conjunct2, THEN conjunct2,
      THEN conjunct2, THEN mp, OF hl]
  have b: \<open>trace (snd (handleMessage JSON_parse [(''boom'', failing_handler)] ''c1'' ?raw ?large))
     = [SendRaw ''c1'' ''{"type":"error","payload":{"error":"kaput"},"timestamp":0}'']\<close>
    by (simp add: failing_handler_def catch_block_def sendMessage_error tl i quote_def escape_char_def
        int_digits_def nat_digits.simps del: run.simps)
  from oversized_frame[where parse = JSON_parse and raw = "''null''"
      and handlers = "[(''boom'', failing_handler)]",
      OF rt asc0, THEN conjunct2, THEN conjunct2, THEN conjunct1, THEN mp, OF ht]
  have d: \<open>trace (snd (handleMessage JSON_parse [(''boom'', failing_handler)] ''c1'' ''null'' ?tiny))
     = [SendRaw ''c1''
         ''{"type":"error","payload":{"error":"Cannot read properties of null (reading 'type')"},"timestamp":0}'']\<close>
    by (simp add: sendMessage_error tt i quote_def escape_char_def int_digits_def nat_digits.simps
        del: run.simps)
  show ?thesis by (rule conjI[OF bl conjI[OF n conjI[OF a conjI[OF b d]]]])
qed

text \<open>
  C5 as stated fails: with \<^verbatim>\<open>maxMessageSize = 1\<close> the frame \<^verbatim>\<open>{}\<close> of 2 bytes is parsed and
  answered by \<^verbatim>\<open>Message type is required\<close>, not by the size error.
\<close>

theorem oversized_frame_counterexample:
  \<open>byte_length ''{}'' = 2
   \<and> max_message_size (run [Add ''c1'' returns_normally closes_normally None None]
            (WebSocketManager (frame_limit 1) 0)) < int (byte_length ''{}'')
   \<and> trace (snd (handleMessage JSON_parse [] ''c1'' ''{}''
         (run [Add ''c1'' returns_normally closes_normally None None]
            (WebSocketManager (frame_limit 1) 0))))
     = [SendRaw ''c1'' ''{"type":"error","payload":{"error":"Message type is required"},"timestamp":0}'']\<close>
  by (simp add: eval_defs eval_defs3 byte_length_def)

text \<open>
  The size check compares \<^verbatim>\<open>rawMessage.length\<close>, the number of units, although the option is
  documented in bytes. The frame below has 23 units and 24 bytes (its last string is one
  character above U+007F): with \<^verbatim>\<open>maxMessageSize = 23\<close> it is not rejected, and its handler is
  called. Frames with such characters are left out of C5 as amended.
\<close>

lemma units_are_not_bytes:
  \<open>length (''{"type":"boom","x":"'' @ [CHR 0xE9] @ ''"}'') = 23
   \<and> byte_length (''{"type":"boom","x":"'' @ [CHR 0xE9] @ ''"}'') = 24
   \<and> trace (snd (handleMessage JSON_parse [(''boom'', failing_handler)] ''c1''
         (''{"type":"boom","x":"'' @ [CHR 0xE9] @ ''"}'')
         (run [Add ''c1'' returns_normally closes_normally None None]
            (WebSocketManager (frame_limit 23) 0))))
     = [SendRaw ''c1'' ''{"type":"error","payload":{"error":"kaput"},"timestamp":0}'']\<close>
  by (simp add: eval_defs eval_defs3 byte_length_def)

section \<open>Failures inside handleMessage\<close>

lemma sendMessage_ok:
  assumes "\<forall>l d. sendFn c l d = None"
  shows "fst (sendMessage c message m) = None"
  using assms by (simp add: sendMessage_def call_sendFn_def)

lemma find_handler_member:
  assumes "find_handler handlers ty = Some h"
  shows "h \<in> snd ` set handlers"
proof -
  from assms obtain s where "map_of handlers s = Some h"
    by (auto simp: find_handler_def split: json.splits)
  then have "(s, h) \<in> set handlers" by (rule map_of_SomeD)
  then show ?thesis by force
qed

lemma join_results_error: "join_results rs acc = Inl t \<Longrightarrow> Inl t \<in> set rs"
  by (induction rs acc rule: join_results.induct) auto

lemma js_to_string_error:
  "js_to_string v = Inl t \<Longrightarrow> t = ThrowError ''Cannot convert object to primitive value''"
proof (induction v arbitrary: t)
  case (JArr xs)
  from JArr.prems
  have "join_results (map (\<lambda>x. if x = JNull then Inr [] else js_to_string x) xs) [] = Inl t"
    by simp
  then have "Inl t \<in> set (map (\<lambda>x. if x = JNull then Inr [] else js_to_string x) xs)"
    by (rule join_results_error)
  then obtain x where "x \<in> set xs" "js_to_string x = Inl t"
    by (auto split: if_splits)
  then show ?case by (rule JArr.IH)
next
  case (JObj kvs)
  then show ?case by (simp split: if_splits)
qed simp_all

lemma try_block_not_nullish:
  assumes ok: "\<forall>l d. sendFn c l d = None"
    and hs: "\<forall>h \<in> snd ` set handlers. \<forall>msg m1. fst (h c msg m1) \<noteq> Some ThrowNullish"
  shows "fst (try_block parse handlers c raw m) \<noteq> Some ThrowNullish"
proof (cases "parse raw")
  case (Inl e)
  then show ?thesis by (simp add: try_block_def)
next
  case (Inr msg)
  show ?thesis
  proof (cases "type_of_message msg")
    case (Inl t)
    then have "t \<noteq> ThrowNullish"
      by (auto simp: type_of_message_def split: json.splits)
    with Inr Inl show ?thesis by (simp add: try_block_def)
  next
    case ty: (Inr ty)
    show ?thesis
    proof (cases "find_handler handlers (the ty)")
      case None
      with Inr ty sendMessage_ok[OF ok] show ?thesis
        by (auto simp: try_block_def split: sum.splits dest: js_to_string_error)
    next
      case (Some h)
      from find_handler_member[OF Some] hs have "fst (h c msg m) \<noteq> Some ThrowNullish" by blast
      with Inr ty Some show ?thesis by (simp add: try_block_def)
    qed
  qed
qed

text \<open>
  C4 (amended). For a registered connection whose \<^verbatim>\<open>sendFn\<close> returns normally, and handlers that
  do not fail with \<^verbatim>\<open>null\<close> or \<^verbatim>\<open>undefined\<close>, \<^verbatim>\<open>handleMessage\<close> never rejects, for every frame
  (parseable or not) and every handler (failing or not); and every failure of the \<^verbatim>\<open>try\<close>
  block with an \<^verbatim>\<open>Error\<close> (of the parser, of the validation, of the handler) is converted
  into the frame \<^verbatim>\<open>{type:"error", payload:{error:<message>}}\<close> sent on that connection. An
  unregistered id returns silently.
\<close>

theorem handleMessage_converts_failures:
  assumes reg: "map_of (connections m) i = Some c"
    and ok: "\<forall>l d. sendFn c l d = None"
    and hs: "\<forall>h \<in> snd ` set handlers. \<forall>msg m1. fst (h c msg m1) \<noteq> Some ThrowNullish"
  shows "fst (handleMessage parse handlers i raw m) = None
       \<and> (try_block parse handlers c raw m = (Some (ThrowError e), m') \<longrightarrow>
            handleMessage parse handlers i raw m
              = (None, m' \<lparr>trace := trace m' @ [SendRaw (conn_id c)
                   (JSON_stringify (JObj [(''type'', JStr ''error''),
                      (''payload'', JObj [(''error'', JStr e)]),
                      (''timestamp'', JNum (int (clock m')))]))]\<rparr>))
       \<and> (parse raw = Inl e \<longrightarrow> try_block parse handlers c raw m = (Some (ThrowError e), m))
       \<and> (map_of (connections m) j = None \<longrightarrow> handleMessage parse handlers j raw m = (None, m))"
proof (intro conjI impI)
  obtain r m1 where t: "try_block parse handlers c raw m = (r, m1)" by force
  show "fst (handleMessage parse handlers i raw m) = None"
  proof (cases r)
    case None
    with t reg show ?thesis by (simp add: handleMessage_def)
  next
    case (Some err)
    from try_block_not_nullish[OF ok hs, of parse raw m] t Some have "err \<noteq> ThrowNullish"
      by simp
    with t Some reg sendMessage_ok[OF ok] show ?thesis
      by (cases err) (simp_all add: handleMessage_def catch_block_def)
  qed
next
  assume "try_block parse handlers c raw m = (Some (ThrowError e), m')"
  with reg have "handleMessage parse handlers i raw m = sendMessage c (error_frame (Some e)) m'"
    by (simp add: handleMessage_def catch_block_def)
  also have "\<dots> = (None, m' \<lparr>trace := trace m' @ [SendRaw (conn_id c)
                   (JSON_stringify (JObj [(''type'', JStr ''error''),
                      (''payload'', JObj [(''error'', JStr e)]),
                      (''timestamp'', JNum (int (clock m')))]))]\<rparr>)"
    using ok by (simp only: sendMessage_error)
  finally show "handleMessage parse handlers i raw m
              = (None, m' \<lparr>trace := trace m' @ [SendRaw (conn_id c)
                   (JSON_stringify (JObj [(''type'', JStr ''error''),
                      (''payload'', JObj [(''error'', JStr e)]),
                      (''timestamp'', JNum (int (clock m')))]))]\<rparr>)" .
next
  assume "parse raw = Inl e"
  then show "try_block parse handlers c raw m = (Some (ThrowError e), m)"
    by (simp add: try_block_def)
next
  assume "map_of (connections m) j = None"
  then show "handleMessage parse handlers j raw m = (None, m)"
    by (simp add: handleMessage_def)
qed

text \<open>
  A handler that throws \<^verbatim>\<open>new Error("kaput")\<close>, on a connection whose writes succeed: the
  promise resolves and the error frame is written.
\<close>

theorem handleMessage_converts_failures_witness:
  \<open>fst (handleMessage JSON_parse [(''boom'', failing_handler)] ''c1'' ''{"type":"boom"}''
         (run [Add ''c1'' returns_normally closes_normally None None]
            (WebSocketManager default_options 0))) = None
   \<and> try_block JSON_parse [(''boom'', failing_handler)]
        (new_conn ''c1'' returns_normally closes_normally None None
           (WebSocketManager default_options 0)) ''{"type":"boom"}''
        (run [Add ''c1'' returns_normally closes_normally None None]
            (WebSocketManager default_options 0))
      = (Some (ThrowError ''kaput''),
         run [Add ''c1'' returns_normally closes_normally None None]
            (WebSocketManager default_options 0))
   \<and> trace (snd (handleMessage JSON_parse [(''boom'', failing_handler)] ''c1'' ''{"type":"boom"}''
         (run [Add ''c1'' returns_normally closes_normally None None]
            (WebSocketManager default_options 0))))
      = [SendRaw ''c1'' ''{"type":"error","payload":{"error":"kaput"},"timestamp":0}'']\<close>
proof -
  let ?c = "new_conn ''c1'' returns_normally closes_normally None None
              (WebSocketManager default_options 0)"
  let ?m = "run [Add ''c1'' returns_normally closes_normally None None]
            (WebSocketManager default_options 0)"
  let ?raw = \<open>''{"type":"boom"}''\<close>
  let ?hs = "[(''boom'', failing_handler)]"
  have reg: "map_of (connections ?m) ''c1'' = Some ?c"
    by (simp add: eval_defs new_conn_def)
  have ok: "\<forall>l d. sendFn ?c l d = None"
    by (simp add: new_conn_def returns_normally_def)
  have hs: "\<forall>h \<in> snd ` set ?hs. \<forall>msg m1. fst (h ?c msg m1) \<noteq> Some ThrowNullish"
    by (simp add: failing_handler_def)
  have mx: "max_message_size ?m = 1048576"
    by (simp add: eval_defs max_message_size_def)
  have t: "try_block JSON_parse ?hs ?c ?raw ?m = (Some (ThrowError ''kaput''), ?m)"
    by (simp add: try_block_def parse_boom type_of_message_def js_truthy_def find_handler_def
        failing_handler_def mx del: run.simps)
  have tr: "trace ?m = []" "clock ?m = 0" "conn_id ?c = ''c1''"
    by (simp_all add: eval_defs new_conn_def)
  note inst = handleMessage_converts_failures[where parse = JSON_parse and raw = ?raw
      and e = "''kaput''" and m' = ?m, OF reg ok hs]
  from inst[THEN conjunct1]
  have a: "fst (handleMessage JSON_parse ?hs ''c1'' ?raw ?m) = None" .
  from inst[THEN conjunct2, THEN conjunct1, THEN mp, OF t]
  have b: \<open>trace (snd (handleMessage JSON_parse ?hs ''c1'' ?raw ?m))
      = [SendRaw ''c1'' ''{"type":"error","payload":{"error":"kaput"},"timestamp":0}'']\<close>
    by (simp add: tr quote_def escape_char_def int_digits_def nat_digits.simps del: run.simps)
  show ?thesis by (rule conjI[OF a conjI[OF t b]])
qed

text \<open>
  C4 as stated fails: the \<^verbatim>\<open>catch\<close> block sends the error frame without a guard. On a
  connection whose \<^verbatim>\<open>sendFn\<close> throws, the frame \<^verbatim>\<open>{}\<close> makes \<^verbatim>\<open>handleMessage\<close> reject with the
  transport's error.
\<close>

theorem handleMessage_rejects_counterexample:
  \<open>fst (handleMessage JSON_parse [] ''c1'' ''{}''
         (run [Add ''c1'' write_fails closes_normally None None]
            (WebSocketManager default_options 0)))
     = Some (ThrowError ''write after end'')\<close>
  by (simp add: eval_defs eval_defs3)

text \<open>
  The second way out of \<^verbatim>\<open>handleMessage\<close>: a handler that rejects with \<^verbatim>\<open>undefined\<close> (as
  \<^verbatim>\<open>Promise.reject()\<close> does) makes the \<^verbatim>\<open>catch\<close> block read \<^verbatim>\<open>message\<close> of \<^verbatim>\<open>undefined\<close>; the
  \<^verbatim>\<open>TypeError\<close> leaves the method although the transport is sound, and no frame is sent.
\<close>

lemma handleMessage_nullish_rejection:
  \<open>handleMessage JSON_parse [(''boom'', rejecting_handler)] ''c1'' ''{"type":"boom"}''
         (run [Add ''c1'' returns_normally closes_normally None None]
            (WebSocketManager default_options 0))
     = (Some (ThrowError ''Cannot read properties of undefined (reading 'message')''),
        run [Add ''c1'' returns_normally closes_normally None None]
            (WebSocketManager default_options 0))\<close>
  by (simp add: eval_defs handleMessage_def try_block_def parse_boom type_of_message_def
      js_truthy_def find_handler_def max_message_size_def rejecting_handler_def catch_block_def)

section \<open>Publishing to several connections\<close>























end
